theory Spec2Isabelle
  imports Complex_Main "HOL-Library.Sublist" "HOL-Library.Multiset"
begin

section \<open>JavaScript values used by the trace metric extractor\<close>

text \<open>
  The scripts of \<^verbatim>\<open>measure_performance.ts\<close> compute with JavaScript numbers.
  A number is modelled as \<open>NaN\<close> or an exact rational \<open>Num r\<close>: the binary rounding of
  IEEE doubles is idealised away, the decimal rounding done by \<^verbatim>\<open>toFixed(3)\<close> is
  kept. The two differ where a double lies on the other side of a decimal tie than
  the exact value: 124.1005 - 123.456 is a little less than 0.6445 in doubles, so the
  script rounds it to 0.644, where the exact difference rounds to 0.645. The general
  theorems below therefore describe a rounded result as a multiple of 0.001 within
  1/2000 of the exact value, which holds on either side of the tie, and give the exact
  value only where no tie is near. Text is a list of 8-bit code units: the code units
  below 256 of a JavaScript string, which cover the ASCII text of a trace.
\<close>

datatype jsnum = NaN | Num rat

text \<open>Truthiness of a number, as tested by \<^verbatim>\<open>if (x)\<close>: neither \<open>0\<close> nor \<open>NaN\<close>.\<close>

fun truthy :: "jsnum \<Rightarrow> bool" where
  "truthy NaN = False"
| "truthy (Num r) = (r \<noteq> 0)"

text \<open>A property read \<^verbatim>\<open>metrics[k]\<close> that yields \<^verbatim>\<open>undefined\<close> is falsy.\<close>

fun truthy_opt :: "jsnum option \<Rightarrow> bool" where
  "truthy_opt None = False"
| "truthy_opt (Some v) = truthy v"

text \<open>\<^verbatim>\<open>a - b\<close>, as the exact difference; \<open>NaN\<close> when an operand is.\<close>

fun js_sub :: "jsnum \<Rightarrow> jsnum \<Rightarrow> jsnum" where
  "js_sub (Num a) (Num b) = Num (a - b)"
| "js_sub _ _ = NaN"


text \<open>
  \<^verbatim>\<open>parseFloat(x.toFixed(3))\<close>: \<^verbatim>\<open>toFixed\<close> removes the sign, picks the integer
  \<open>n\<close> with \<open>n / 1000\<close> nearest to the magnitude (the larger \<open>n\<close> on a tie) and prints
  it with three decimals; \<^verbatim>\<open>parseFloat\<close> reads the number back. Here \<open>n\<close> is
  chosen for the exact value, see above for the ties.
\<close>

definition round3 :: "rat \<Rightarrow> rat" where
  "round3 x = (if x < 0 then - (of_int \<lfloor>(- x) * 1000 + 1 / 2\<rfloor> / 1000)
               else of_int \<lfloor>x * 1000 + 1 / 2\<rfloor> / 1000)"

fun toFixed3 :: "jsnum \<Rightarrow> jsnum" where
  "toFixed3 NaN = NaN"
| "toFixed3 (Num x) = Num (round3 x)"

subsection \<open>parseFloat on a captured run of digits and dots\<close>

definition is_digit :: "char \<Rightarrow> bool" where
  "is_digit c = (let n = (of_char c :: nat) in 48 \<le> n \<and> n \<le> 57)"

definition digit_val :: "char \<Rightarrow> int" where
  "digit_val c = of_char c - 48"

definition digits_val :: "string \<Rightarrow> int" where
  "digits_val ds = foldl (\<lambda>a d. 10 * a + digit_val d) 0 ds"

text \<open>
  \<^verbatim>\<open>parseFloat\<close> reads the longest prefix that is a decimal literal: digits with an
  optional fraction, or a dot followed by digits. Every string it receives here is the
  capture of \<^verbatim>\<open>([0-9.]+)\<close>, so signs, exponents and blanks do not occur.
\<close>

definition parseFloat :: "string \<Rightarrow> jsnum" where
  "parseFloat s =
     (let ip = takeWhile is_digit s; r = dropWhile is_digit s in
      case r of
        c # r2 \<Rightarrow>
          if c = CHR ''.'' then
            (let fp = takeWhile is_digit r2 in
             if ip = [] \<and> fp = [] then NaN
             else Num (of_int (digits_val ip) + of_int (digits_val fp) / 10 ^ length fp))
          else if ip = [] then NaN else Num (of_int (digits_val ip))
      | [] \<Rightarrow> if ip = [] then NaN else Num (of_int (digits_val ip)))"

section \<open>Regular expressions\<close>

text \<open>
  The patterns of the script are sequences of single-character atoms, each optionally
  under \<^verbatim>\<open>*\<close>, \<^verbatim>\<open>+\<close> or \<^verbatim>\<open>*?\<close>, one capture group and the assertion
  \<^verbatim>\<open>$\<close>. No pattern carries a flag, so \<^verbatim>\<open>.\<close> stops at line terminators and
  \<^verbatim>\<open>$\<close> holds at the end of the text only.
\<close>

datatype cc = Lit char | Dot | Space | NonSpace | Digit | Word | DigitOrDot

definition is_space :: "char \<Rightarrow> bool" where
  "is_space c = (let n = (of_char c :: nat) in (9 \<le> n \<and> n \<le> 13) \<or> n = 32 \<or> n = 160)"

definition is_word :: "char \<Rightarrow> bool" where
  "is_word c = (let n = (of_char c :: nat) in
     (48 \<le> n \<and> n \<le> 57) \<or> (65 \<le> n \<and> n \<le> 90) \<or> n = 95 \<or> (97 \<le> n \<and> n \<le> 122))"

definition is_line_terminator :: "char \<Rightarrow> bool" where
  "is_line_terminator c = (let n = (of_char c :: nat) in n = 10 \<or> n = 13)"

fun cc_ok :: "cc \<Rightarrow> char \<Rightarrow> bool" where
  "cc_ok (Lit a) c = (a = c)"
| "cc_ok Dot c = (\<not> is_line_terminator c)"
| "cc_ok Space c = is_space c"
| "cc_ok NonSpace c = (\<not> is_space c)"
| "cc_ok Digit c = is_digit c"
| "cc_ok Word c = is_word c"
| "cc_ok DigitOrDot c = (is_digit c \<or> c = CHR ''.'')"

datatype item =
    Atom cc
  | Star cc
  | Plus cc
  | LazyStar cc
  | GroupOpen
  | GroupClose
  | EndOfInput

text \<open>
  Backtracking matcher at a fixed start position. \<open>rec\<close> tells whether the capture
  group is open and \<open>acc\<close> holds the text captured so far; the result is the text of
  group 1. Greedy quantifiers try the longer repetition first, the lazy one the shorter.
\<close>

fun rmatch :: "item list \<Rightarrow> string \<Rightarrow> bool \<Rightarrow> string \<Rightarrow> string option" where
  "rmatch [] s rec acc = Some acc"
| "rmatch (Atom c # p) [] rec acc = None"
| "rmatch (Atom c # p) (x # xs) rec acc =
     (if cc_ok c x then rmatch p xs rec (if rec then acc @ [x] else acc) else None)"
| "rmatch (Star c # p) [] rec acc = rmatch p [] rec acc"
| "rmatch (Star c # p) (x # xs) rec acc =
     (if cc_ok c x then
        (case rmatch (Star c # p) xs rec (if rec then acc @ [x] else acc) of
           Some r \<Rightarrow> Some r
         | None \<Rightarrow> rmatch p (x # xs) rec acc)
      else rmatch p (x # xs) rec acc)"
| "rmatch (Plus c # p) [] rec acc = None"
| "rmatch (Plus c # p) (x # xs) rec acc =
     (if cc_ok c x then rmatch (Star c # p) xs rec (if rec then acc @ [x] else acc) else None)"
| "rmatch (LazyStar c # p) [] rec acc = rmatch p [] rec acc"
| "rmatch (LazyStar c # p) (x # xs) rec acc =
     (case rmatch p (x # xs) rec acc of
        Some r \<Rightarrow> Some r
      | None \<Rightarrow>
          if cc_ok c x then rmatch (LazyStar c # p) xs rec (if rec then acc @ [x] else acc)
          else None)"
| "rmatch (GroupOpen # p) s rec acc = rmatch p s True []"
| "rmatch (GroupClose # p) s rec acc = rmatch p s False acc"
| "rmatch (EndOfInput # p) s rec acc = (if s = [] then rmatch p s rec acc else None)"

text \<open>
  \<^verbatim>\<open>text.match(pattern)\<close> without the global flag: the first start position, from
  the left, at which the pattern matches; \<open>None\<close> is JavaScript's \<^verbatim>\<open>null\<close> and
  \<open>Some c\<close> a match whose \<^verbatim>\<open>match[1]\<close> is \<open>c\<close>.
\<close>

fun js_match :: "item list \<Rightarrow> string \<Rightarrow> string option" where
  "js_match p [] = rmatch p [] False []"
| "js_match p (x # xs) =
     (case rmatch p (x # xs) False [] of
        Some c \<Rightarrow> Some c
      | None \<Rightarrow> js_match p xs)"

text \<open>
  A loop over a list of patterns that breaks at the first one that matches.
\<close>

fun firstMatch :: "item list list \<Rightarrow> string \<Rightarrow> string option" where
  "firstMatch [] t = None"
| "firstMatch (p # ps) t =
     (case js_match p t of Some c \<Rightarrow> Some c | None \<Rightarrow> firstMatch ps t)"

section \<open>Configuration and metric sets\<close>

text \<open>
  Of the \<^verbatim>\<open>Config\<close> interface, trace processing reads the package identifier, the
  custom marker names and the paired markers. \<^verbatim>\<open>metrics\<close> is a
  \<^verbatim>\<open>Record<string, number>\<close>: a finite map from metric keys to numbers.
\<close>

record PairedMarker =
  start :: string
  end' :: string
  name :: string

record Config =
  appPackage :: string
  customMarkers :: "string list"
  pairedMarkers :: "PairedMarker list"

type_synonym metrics = "string \<rightharpoonup> jsnum"

section \<open>Patterns of processTraceData\<close>

definition lit :: "string \<Rightarrow> item list" where
  "lit s = map (\<lambda>c. Atom (Lit c)) s"

text \<open>
  A name spliced into the source of a \<^verbatim>\<open>new RegExp(`...${name}...`)\<close> is read as
  pattern text. The model covers names free of the syntax characters other than the
  dot (see \<open>plain_name\<close>): a dot is the wildcard, any other character stands for itself.
\<close>

definition interp :: "string \<Rightarrow> item list" where
  "interp s = map (\<lambda>c. if c = CHR ''.'' then Atom Dot else Atom (Lit c)) s"

definition plain_name :: "string \<Rightarrow> bool" where
  "plain_name s = (\<forall>c \<in> set s. c \<notin> set (CHR 0x5C # ''^$*+?()[]{}|''))"

text \<open>
  In a regular expression literal \<^verbatim>\<open>/...${config.appPackage}/\<close> nothing is spliced:
  \<^verbatim>\<open>$\<close> is the end-of-input assertion and \<^verbatim>\<open>{config.appPackage}\<close> is pattern
  text, in which the braces are literal and the dot is the wildcard.
\<close>

definition unspliced :: "item list" where
  "unspliced = [EndOfInput] @ lit ''{config'' @ [Atom Dot] @ lit ''appPackage}''"

text \<open>\<^verbatim>\<open>\S+\s+\(\s*\d+\)\s+\[\d+\]\s+\.+\s+([0-9.]+):\<close>\<close>

definition linePrefix :: "item list" where
  "linePrefix =
     [Plus NonSpace, Plus Space, Atom (Lit (CHR ''('')), Star Space, Plus Digit,
      Atom (Lit (CHR '')'')), Plus Space, Atom (Lit (CHR ''['')), Plus Digit,
      Atom (Lit (CHR '']'')), Plus Space, Plus (Lit (CHR ''.'')), Plus Space,
      GroupOpen, Plus DigitOrDot, GroupClose, Atom (Lit (CHR '':''))]"

text \<open>\<^verbatim>\<open>\S+\s+\(\s*\d+\)\s+\[\d+\]\s+\.+\s+([0-9.]+):\s+tracing_mark_write:\<close>\<close>

definition markWrite :: "item list" where
  "markWrite = linePrefix @ [Plus Space] @ lit ''tracing_mark_write:''"

text \<open>\<^verbatim>\<open>([0-9.]+)\<close>\<close>

definition num :: "item list" where
  "num = [GroupOpen, Plus DigitOrDot, GroupClose]"

definition appStartPatterns :: "string \<Rightarrow> item list list" where
  "appStartPatterns pkg =
     [markWrite @ [Plus Space] @ lit ''B'' @ [Atom (Lit (CHR ''|'')), Plus Digit,
        Atom (Lit (CHR ''|''))] @ lit ''Startup'',
      markWrite @ [Star Dot] @ lit ''APPLICATION_START'',
      markWrite @ [Star Dot] @ lit ''ActivityManager'' @ [Star Dot] @ lit ''START''
        @ [LazyStar Dot] @ interp pkg,
      markWrite @ [Star Dot] @ lit ''ActivityTaskManager'' @ [Star Dot] @ lit ''START''
        @ [LazyStar Dot] @ interp pkg,
      markWrite @ [Star Dot] @ lit ''Displayed'' @ [LazyStar Dot] @ interp pkg,
      markWrite @ [Star Dot] @ lit ''am_create_activity'' @ [LazyStar Dot] @ interp pkg,
      markWrite @ [Star Dot] @ lit ''am_on_resume_called'' @ [LazyStar Dot] @ interp pkg,
      markWrite @ [Star Dot] @ lit ''am_proc_start'' @ [LazyStar Dot] @ interp pkg,
      num @ [Star Dot] @ lit ''ActivityManager'' @ [Star Dot] @ lit ''START''
        @ [LazyStar Dot] @ unspliced,
      num @ [Star Dot] @ lit ''ActivityTaskManager'' @ [Star Dot] @ lit ''START''
        @ [LazyStar Dot] @ unspliced,
      num @ [Star Dot] @ lit ''ActivityManager'' @ [Star Dot] @ lit ''Displayed''
        @ [LazyStar Dot] @ unspliced,
      num @ [Star Dot] @ lit ''am_create_activity'' @ [LazyStar Dot] @ unspliced,
      num @ [Star Dot] @ lit ''am_on_resume_called'' @ [LazyStar Dot] @ unspliced,
      num @ [Star Dot] @ lit ''am_proc_start'' @ [LazyStar Dot] @ unspliced,
      num @ [Star Dot] @ lit ''am_create_task'' @ [LazyStar Dot] @ unspliced]"

text \<open>\<^verbatim>\<open>\S+\s+\(\s*\d+\)\s+\[\d+\]\s+\.+\s+([0-9.]+):\s+.*${config.appPackage}\<close>\<close>

definition appFirstMentionPattern :: "string \<Rightarrow> item list" where
  "appFirstMentionPattern pkg = linePrefix @ [Plus Space, Star Dot] @ interp pkg"

definition firstTimestampPattern :: "item list" where
  "firstTimestampPattern = linePrefix"

text \<open>
  The four lifecycle patterns are regular expression literals:
  \<^verbatim>\<open>/([0-9.]+).*performCreate.*?${config.appPackage}/\<close> and its siblings.
\<close>

definition lifecyclePattern :: "string \<Rightarrow> item list" where
  "lifecyclePattern event = num @ [Star Dot] @ lit event @ [LazyStar Dot] @ unspliced"

definition markerPatterns :: "string \<Rightarrow> item list list" where
  "markerPatterns marker =
     [markWrite @ [Plus Space, Plus Word, Atom (Lit (CHR ''|'')), Plus Digit,
        Atom (Lit (CHR ''|''))] @ interp marker,
      markWrite @ [Star Dot] @ interp marker,
      num @ [Star Dot] @ lit ''PerfettoTracer'' @ [Star Dot] @ lit ''beginTrace''
        @ [Star Dot] @ interp marker,
      num @ [Star Dot] @ lit ''PerfettoTracer'' @ [Star Dot] @ interp marker,
      num @ [Star Dot] @ lit ''beginTrace'' @ [Star Dot] @ interp marker,
      num @ [Star Dot] @ interp marker @ [Star Dot] @ lit ''begin'',
      num @ [Star Dot] @ lit ''begin'' @ [Star Dot] @ interp marker,
      num @ [Star Dot] @ lit ''TEST_EVENT_MANUAL'',
      num @ [Star Dot] @ lit ''test_event_manual'',
      num @ [Star Dot] @ interp marker]"

text \<open>\<^verbatim>\<open>startPatterns\<close> and \<^verbatim>\<open>endPatterns\<close> of a paired marker have one shape.\<close>

definition pairPatterns :: "string \<Rightarrow> item list list" where
  "pairPatterns marker =
     [markWrite @ [Plus Space, Plus Word, Atom (Lit (CHR ''|'')), Plus Digit,
        Atom (Lit (CHR ''|''))] @ interp marker,
      markWrite @ [Star Dot] @ interp marker,
      num @ [Star Dot] @ lit ''PerfettoTracer'' @ [Star Dot] @ lit ''beginTrace''
        @ [Star Dot] @ interp marker,
      num @ [Star Dot] @ lit ''PerfettoTracer'' @ [Star Dot] @ interp marker,
      num @ [Star Dot] @ interp marker]"

section \<open>processTraceData\<close>

text \<open>
  The function of the script that declares \<^verbatim>\<open>normalizeTimestamp\<close> (lines 2458 to
  2792 of \<^verbatim>\<open>measure_performance.ts\<close>, the last of the four scripts that the file
  holds). It reads the trace, fills \<^verbatim>\<open>metrics\<close> and hands it to
  \<^verbatim>\<open>writeMetricsToFile\<close>; the model takes the text of the trace and returns that
  \<^verbatim>\<open>metrics\<close> object. Each part below is one block of the function, in the order of
  the source.
\<close>

text \<open>
  Lines 2471 to 2543: the loop over \<^verbatim>\<open>appStartPatterns\<close> that breaks at the first
  match, then the two fallbacks, each under \<^verbatim>\<open>if (!appStartTimestamp)\<close>.
\<close>

definition resolveAppStart :: "Config \<Rightarrow> string \<Rightarrow> jsnum" where
  "resolveAppStart config traceContent =
     (let a0 = (case firstMatch (appStartPatterns (appPackage config)) traceContent of
                  Some c \<Rightarrow> parseFloat c
                | None \<Rightarrow> Num 0);
          a1 = (if \<not> truthy a0 then
                  (case js_match (appFirstMentionPattern (appPackage config)) traceContent of
                     Some c \<Rightarrow> parseFloat c
                   | None \<Rightarrow> a0)
                else a0);
          a2 = (if \<not> truthy a1 then
                  (case js_match firstTimestampPattern traceContent of
                     Some c \<Rightarrow> parseFloat c
                   | None \<Rightarrow> a1)
                else a1)
      in a2)"

text \<open>\<^verbatim>\<open>if (match) metrics[k] = parseFloat(match[1])\<close>\<close>

definition setIfMatch :: "string \<Rightarrow> string option \<Rightarrow> metrics \<Rightarrow> metrics" where
  "setIfMatch k mt ms = (case mt of Some c \<Rightarrow> ms(k \<mapsto> parseFloat c) | None \<Rightarrow> ms)"

text \<open>Lines 2553 to 2571: the four lifecycle matches.\<close>

definition lifecycleEvents :: "string \<Rightarrow> metrics \<Rightarrow> metrics" where
  "lifecycleEvents traceContent ms =
     (let createMatch = js_match (lifecyclePattern ''performCreate'') traceContent;
          startMatch = js_match (lifecyclePattern ''performStart'') traceContent;
          resumeMatch = js_match (lifecyclePattern ''performResume'') traceContent;
          drawnMatch = js_match (lifecyclePattern ''reportFullyDrawn'') traceContent
      in setIfMatch ''activityDrawnTimestamp'' drawnMatch
          (setIfMatch ''activityResumeTimestamp'' resumeMatch
            (setIfMatch ''activityStartTimestamp'' startMatch
              (setIfMatch ''activityCreateTimestamp'' createMatch ms))))"

text \<open>Lines 2573 to 2599: one round of the loop over \<^verbatim>\<open>customMarkers\<close>.\<close>

definition markerStep :: "string \<Rightarrow> string \<Rightarrow> metrics \<Rightarrow> metrics" where
  "markerStep traceContent marker ms =
     setIfMatch (marker @ ''Timestamp'') (firstMatch (markerPatterns marker) traceContent) ms"

text \<open>
  Lines 2601 to 2659: one round of the loop over \<^verbatim>\<open>pairedMarkers\<close>. The local
  variables \<^verbatim>\<open>startTimestamp\<close> and \<^verbatim>\<open>endTimestamp\<close> start at 0 and take the
  parsed capture of a match.
\<close>

definition matchTime :: "string option \<Rightarrow> jsnum" where
  "matchTime mt = (case mt of Some c \<Rightarrow> parseFloat c | None \<Rightarrow> Num 0)"

definition pairStep :: "string \<Rightarrow> PairedMarker \<Rightarrow> metrics \<Rightarrow> metrics" where
  "pairStep traceContent pair ms =
     (let sm = firstMatch (pairPatterns (start pair)) traceContent;
          startTimestamp = matchTime sm;
          ms1 = setIfMatch (start pair @ ''Timestamp'') sm ms;
          em = firstMatch (pairPatterns (end' pair)) traceContent;
          endTimestamp = matchTime em;
          ms2 = setIfMatch (end' pair @ ''Timestamp'') em ms1
      in if truthy startTimestamp \<and> truthy endTimestamp
         then ms2(name pair @ ''Duration'' \<mapsto> js_sub endTimestamp startTimestamp)
         else ms2)"

text \<open>
  Lines 2661 to 2698: the relative offsets, under \<^verbatim>\<open>if (appStartTimestamp)\<close>.
  \<open>setRel\<close> is \<^verbatim>\<open>if (v) metrics[k] = v - appStartTimestamp\<close>, for a value \<open>v\<close> read
  before.
\<close>

definition setRel :: "string \<Rightarrow> jsnum option \<Rightarrow> jsnum \<Rightarrow> metrics \<Rightarrow> metrics" where
  "setRel k v a ms = (case v of
       Some x \<Rightarrow> if truthy x then ms(k \<mapsto> js_sub x a) else ms
     | None \<Rightarrow> ms)"

definition relMarkerStep :: "jsnum \<Rightarrow> string \<Rightarrow> metrics \<Rightarrow> metrics" where
  "relMarkerStep a marker ms = setRel (''timeTo'' @ marker) (ms (marker @ ''Timestamp'')) a ms"

definition relPairStep :: "jsnum \<Rightarrow> PairedMarker \<Rightarrow> metrics \<Rightarrow> metrics" where
  "relPairStep a pair ms =
     (let startTimestamp = ms (start pair @ ''Timestamp'');
          endTimestamp = ms (end' pair @ ''Timestamp'')
      in setRel (''timeTo'' @ end' pair) endTimestamp a
           (setRel (''timeTo'' @ start pair) startTimestamp a ms))"

definition relativeOffsets :: "Config \<Rightarrow> jsnum \<Rightarrow> metrics \<Rightarrow> metrics" where
  "relativeOffsets config appStartTimestamp ms =
     (if truthy appStartTimestamp then
        (let ms1 = setRel ''timeToCreate'' (ms ''activityCreateTimestamp'') appStartTimestamp ms;
             ms2 = setRel ''timeToStart'' (ms1 ''activityStartTimestamp'') appStartTimestamp ms1;
             ms3 = setRel ''timeToResume'' (ms2 ''activityResumeTimestamp'') appStartTimestamp ms2;
             ms4 = setRel ''timeToFullyDrawn'' (ms3 ''activityDrawnTimestamp'') appStartTimestamp ms3;
             ms5 = fold (relMarkerStep appStartTimestamp) (customMarkers config) ms4
         in fold (relPairStep appStartTimestamp) (pairedMarkers config) ms5)
      else ms)"

text \<open>
  Lines 2700 to 2782: \<^verbatim>\<open>normalizeTimestamp\<close> and the block that applies it to the
  absolute timestamps and rounds the relative offsets and durations of the markers.
\<close>

fun normalizeTimestamp :: "jsnum \<Rightarrow> jsnum" where
  "normalizeTimestamp NaN = NaN"
| "normalizeTimestamp (Num t) = (if t > 1000000 then Num (round3 (t / 1000000)) else Num t)"

text \<open>\<^verbatim>\<open>if (metrics[k]) metrics[k] = f(metrics[k])\<close>\<close>

definition updIfTruthy :: "string \<Rightarrow> (jsnum \<Rightarrow> jsnum) \<Rightarrow> metrics \<Rightarrow> metrics" where
  "updIfTruthy k f ms = (case ms k of
       Some v \<Rightarrow> if truthy v then ms(k \<mapsto> f v) else ms
     | None \<Rightarrow> ms)"

definition normMarkerStep :: "string \<Rightarrow> metrics \<Rightarrow> metrics" where
  "normMarkerStep marker ms =
     updIfTruthy (''timeTo'' @ marker) toFixed3
       (updIfTruthy (marker @ ''Timestamp'') normalizeTimestamp ms)"

definition normPairStep :: "PairedMarker \<Rightarrow> metrics \<Rightarrow> metrics" where
  "normPairStep pair ms =
     updIfTruthy (''timeTo'' @ end' pair) toFixed3
       (updIfTruthy (''timeTo'' @ start pair) toFixed3
         (updIfTruthy (name pair @ ''Duration'') toFixed3
           (updIfTruthy (end' pair @ ''Timestamp'') normalizeTimestamp
             (updIfTruthy (start pair @ ''Timestamp'') normalizeTimestamp ms))))"

definition normalizeAll :: "Config \<Rightarrow> metrics \<Rightarrow> metrics" where
  "normalizeAll config ms =
     (let ms1 = updIfTruthy ''appStartTimestamp'' normalizeTimestamp ms;
          ms2 = updIfTruthy ''activityCreateTimestamp'' normalizeTimestamp ms1;
          ms3 = updIfTruthy ''activityStartTimestamp'' normalizeTimestamp ms2;
          ms4 = updIfTruthy ''activityResumeTimestamp'' normalizeTimestamp ms3;
          ms5 = updIfTruthy ''activityDrawnTimestamp'' normalizeTimestamp ms4;
          ms6 = fold normMarkerStep (customMarkers config) ms5
      in fold normPairStep (pairedMarkers config) ms6)"

text \<open>
  The blocks in sequence: \<open>extractRaw\<close> is \<^verbatim>\<open>metrics\<close> after the loops that collect
  timestamps and durations (up to line 2659), \<open>processTraceData\<close> the object passed to
  \<^verbatim>\<open>writeMetricsToFile\<close>.
\<close>

definition extractRaw :: "Config \<Rightarrow> string \<Rightarrow> metrics" where
  "extractRaw config traceContent =
     (let appStartTimestamp = resolveAppStart config traceContent;
          ms0 = Map.empty(''appStartTimestamp'' \<mapsto> appStartTimestamp);
          ms1 = lifecycleEvents traceContent ms0;
          ms2 = fold (markerStep traceContent) (customMarkers config) ms1
      in fold (pairStep traceContent) (pairedMarkers config) ms2)"

definition processTraceData :: "Config \<Rightarrow> string \<Rightarrow> metrics" where
  "processTraceData config traceContent =
     (let appStartTimestamp = resolveAppStart config traceContent;
          ms3 = extractRaw config traceContent;
          ms4 = relativeOffsets config appStartTimestamp ms3
      in normalizeAll config ms4)"

subsection \<open>The keys a configuration writes\<close>

definition absFixedKeys :: "string list" where
  "absFixedKeys = [''appStartTimestamp'', ''activityCreateTimestamp'',
     ''activityStartTimestamp'', ''activityResumeTimestamp'', ''activityDrawnTimestamp'']"

definition relFixedKeys :: "string list" where
  "relFixedKeys = [''timeToCreate'', ''timeToStart'', ''timeToResume'', ''timeToFullyDrawn'']"

definition markerKeys :: "string \<Rightarrow> string list" where
  "markerKeys marker = [marker @ ''Timestamp'', ''timeTo'' @ marker]"

definition pairKeys :: "PairedMarker \<Rightarrow> string list" where
  "pairKeys pair = [start pair @ ''Timestamp'', end' pair @ ''Timestamp'',
     name pair @ ''Duration'', ''timeTo'' @ start pair, ''timeTo'' @ end' pair]"

text \<open>
  Every key that \<^verbatim>\<open>processTraceData\<close> can write, once for each place of the
  configuration that names it.
\<close>

definition metricKeys :: "Config \<Rightarrow> string list" where
  "metricKeys config = relFixedKeys @ absFixedKeys
     @ concat (map markerKeys (customMarkers config))
     @ concat (map pairKeys (pairedMarkers config))"

definition absKeys :: "Config \<Rightarrow> string list" where
  "absKeys config = absFixedKeys
     @ map (\<lambda>m. m @ ''Timestamp'') (customMarkers config)
     @ concat (map (\<lambda>p. [start p @ ''Timestamp'', end' p @ ''Timestamp'']) (pairedMarkers config))"

definition relKeys :: "Config \<Rightarrow> string list" where
  "relKeys config = relFixedKeys
     @ map (\<lambda>m. ''timeTo'' @ m) (customMarkers config)
     @ concat (map (\<lambda>p. [''timeTo'' @ start p, ''timeTo'' @ end' p]) (pairedMarkers config))"

definition configNames :: "Config \<Rightarrow> string list" where
  "configNames config = appPackage config # customMarkers config
     @ concat (map (\<lambda>p. [start p, end' p]) (pairedMarkers config))"

text \<open>
  The configurations the theorems below speak about: no two metrics share a key, and
  the names spliced into patterns are plain.
\<close>

definition wf_config :: "Config \<Rightarrow> bool" where
  "wf_config config =
     (distinct (metricKeys config) \<and> list_all plain_name (configNames config))"

section \<open>Earlier scripts of the file\<close>

text \<open>
  The first script's lifecycle patterns (lines 182 to 185):
  \<^verbatim>\<open>/([0-9.]+).*performCreate.*${config.appPackage}/\<close> and its siblings.
\<close>

definition lifecyclePattern1 :: "string \<Rightarrow> item list" where
  "lifecyclePattern1 event = num @ [Star Dot] @ lit event @ [Star Dot] @ unspliced"

text \<open>The marker patterns and the marker loop of the second script (lines 897 to 917).\<close>

definition markerPatterns2 :: "string \<Rightarrow> item list list" where
  "markerPatterns2 marker =
     [num @ [Star Dot] @ lit ''PerfettoTracer'' @ [Star Dot] @ lit ''beginTrace''
        @ [Star Dot] @ interp marker,
      num @ [Star Dot] @ lit ''PerfettoTracer'' @ [Star Dot] @ interp marker,
      num @ [Star Dot] @ lit ''beginTrace'' @ [Star Dot] @ interp marker,
      num @ [Star Dot] @ interp marker @ [Star Dot] @ lit ''begin'',
      num @ [Star Dot] @ lit ''begin'' @ [Star Dot] @ interp marker,
      num @ [Star Dot] @ lit ''TEST_EVENT_MANUAL'',
      num @ [Star Dot] @ lit ''test_event_manual'',
      num @ [Star Dot] @ interp marker]"

definition markerStep2 :: "string \<Rightarrow> string \<Rightarrow> metrics \<Rightarrow> metrics" where
  "markerStep2 traceContent marker ms =
     setIfMatch (marker @ ''Timestamp'') (firstMatch (markerPatterns2 marker) traceContent) ms"

subsection \<open>The summary of the first script (lines 553 to 604)\<close>

fun show_nat :: "nat \<Rightarrow> string" where
  "show_nat n = (if n < 10 then [char_of (48 + n)]
                 else show_nat (n div 10) @ [char_of (48 + n mod 10)])"

text \<open>\<^verbatim>\<open>x.toFixed(3)\<close> as text.\<close>

definition toFixed3_str :: "rat \<Rightarrow> string" where
  "toFixed3_str x =
     (let n = nat \<lfloor>\<bar>x\<bar> * 1000 + 1 / 2\<rfloor>; f = n mod 1000 in
      (if x < 0 then ''-'' else []) @ show_nat (n div 1000) @ ''.''
        @ [char_of (48 + f div 100), char_of (48 + f div 10 mod 10), char_of (48 + f mod 10)])"

definition newline :: string where
  "newline = [CHR 0x0A]"

text \<open>
  \<^verbatim>\<open>addAverageToSummary\<close> appends one line to its parameter \<^verbatim>\<open>content\<close> and
  returns the longer text. The caller's variable is not changed by the call.
\<close>

definition addAverageToSummary ::
  "string \<Rightarrow> (string \<rightharpoonup> rat list) \<Rightarrow> string \<Rightarrow> string \<Rightarrow> string \<Rightarrow> string" where
  "addAverageToSummary content metrics metricName displayName unit =
     (case metrics metricName of
        Some values \<Rightarrow>
          if length values > 0 then
            (let avg = foldl (+) 0 values / of_nat (length values) in
             content @ ''- '' @ displayName @ '': '' @ toFixed3_str avg @ unit
               @ '' (averaged over '' @ show_nat (length values) @ '' runs)'' @ newline)
          else content @ ''- '' @ displayName @ '': No data available'' @ newline
      | None \<Rightarrow> content @ ''- '' @ displayName @ '': No data available'' @ newline)"

text \<open>The index pairs \<open>i < j\<close> of the nested loops over \<^verbatim>\<open>customMarkers\<close>.\<close>

definition markerPairs :: "string list \<Rightarrow> (string \<times> string) list" where
  "markerPairs xs =
     concat (map (\<lambda>i. map (\<lambda>j. (xs ! i, xs ! j)) [i + 1 ..< length xs]) [0 ..< length xs])"

text \<open>
  The part of \<^verbatim>\<open>generateSummaryReport\<close> that follows the collection of
  \<^verbatim>\<open>allMetrics\<close>: it takes the text built so far and returns the text written to
  \<^verbatim>\<open>summary_report.txt\<close>. Every call of \<^verbatim>\<open>addAverageToSummary\<close> is a statement
  of its own, so the text it returns is dropped.
\<close>

definition summaryContent ::
  "Config \<Rightarrow> (string \<rightharpoonup> rat list) \<Rightarrow> string \<Rightarrow> string" where
  "summaryContent config allMetrics content0 =
     (let content1 = content0 @ ''App startup performance (averaged over successful runs):'' @ newline;
          r1 = addAverageToSummary content1 allMetrics ''timeToCreate''
                 ''Time from intent to performCreate'' ''s'';
          r2 = addAverageToSummary content1 allMetrics ''createToStart''
                 ''Time from performCreate to performStart'' ''s'';
          r3 = addAverageToSummary content1 allMetrics ''startToResume''
                 ''Time from performStart to performResume'' ''s'';
          r4 = addAverageToSummary content1 allMetrics ''totalStartupTime''
                 ''Total startup time (intent to performResume)'' ''s'';
          r5 = addAverageToSummary content1 allMetrics ''timeToFullyDrawn''
                 ''Total time to fully drawn'' ''s'';
          content2 = content1 @ newline
            @ ''Custom marker timings (averaged over successful runs):'' @ newline;
          content3 = fold (\<lambda>marker content.
                let r = addAverageToSummary content allMetrics (''timeTo'' @ marker)
                          (''Time from app start to '' @ marker) ''s''
                in content) (customMarkers config) content2;
          content4 = content3 @ newline
            @ ''Marker-to-marker timings (averaged over successful runs):'' @ newline;
          content5 = fold (\<lambda>(marker1, marker2) content.
                let r = addAverageToSummary content allMetrics (marker1 @ ''To'' @ marker2)
                          (''Time from '' @ marker1 @ '' to '' @ marker2) ''s''
                in content) (markerPairs (customMarkers config)) content4;
          content6 = content5 @ newline
            @ ''Frame rendering performance (averaged over successful runs):'' @ newline;
          r6 = addAverageToSummary content6 allMetrics ''avgFrameDuration''
                 ''Average frame duration'' ''ms'';
          r7 = addAverageToSummary content6 allMetrics ''avgFps'' ''Average FPS'' ''s'';
          r8 = addAverageToSummary content6 allMetrics ''jankyPercentage''
                 ''Janky frames percentage'' ''%'';
          r9 = addAverageToSummary content6 allMetrics ''severeJankyPercentage''
                 ''Severe jank percentage'' ''%''
      in content6)"

section \<open>Summary statistics\<close>

record Stats =
  min' :: rat
  max' :: rat
  avg :: rat
  median :: rat

text \<open>
  \<^verbatim>\<open>calculateStats\<close> of the last script (lines 3150 to 3175). The values are the
  finite numbers read back from the per-run reports; \<^verbatim>\<open>sort((a, b) => a - b)\<close>
  orders them numerically.
\<close>

definition calculateStats :: "rat list \<Rightarrow> Stats" where
  "calculateStats values =
     (if length values = 0 then \<lparr>min' = 0, max' = 0, avg = 0, median = 0\<rparr>
      else
        (let sortedValues = sort values;
             mn = sortedValues ! 0;
             mx = sortedValues ! (length sortedValues - 1);
             av = foldl (+) 0 sortedValues / of_nat (length sortedValues);
             mid = length sortedValues div 2;
             md = (if length sortedValues mod 2 = 0
                   then (sortedValues ! (mid - 1) + sortedValues ! mid) / 2
                   else sortedValues ! mid)
         in \<lparr>min' = mn, max' = mx, avg = av, median = md\<rparr>))"

section \<open>Operation lists\<close>

text \<open>
  Each block of \<^verbatim>\<open>processTraceData\<close> is a sequence of guarded writes to
  \<^verbatim>\<open>metrics\<close>. The lists below name these writes, key by key, in the order of the
  source; a key that a block does not write is entered with an empty operation.
\<close>

definition assign :: "string \<times> jsnum option \<Rightarrow> metrics \<Rightarrow> metrics" where
  "assign op M = (case snd op of Some v \<Rightarrow> M(fst op \<mapsto> v) | None \<Rightarrow> M)"

definition relOp :: "jsnum \<Rightarrow> string \<times> string option \<Rightarrow> metrics \<Rightarrow> metrics" where
  "relOp a op M = (case snd op of Some src \<Rightarrow> setRel (fst op) (M src) a M | None \<Rightarrow> M)"

definition updOp :: "string \<times> (jsnum \<Rightarrow> jsnum) \<Rightarrow> metrics \<Rightarrow> metrics" where
  "updOp op M = updIfTruthy (fst op) (snd op) M"

definition rawMarkerOps :: "string \<Rightarrow> string \<Rightarrow> (string \<times> jsnum option) list" where
  "rawMarkerOps t m =
     [(m @ ''Timestamp'', map_option parseFloat (firstMatch (markerPatterns m) t)),
      (''timeTo'' @ m, None)]"

definition rawPairOps :: "string \<Rightarrow> PairedMarker \<Rightarrow> (string \<times> jsnum option) list" where
  "rawPairOps t p =
     (let sm = firstMatch (pairPatterns (start p)) t;
          em = firstMatch (pairPatterns (end' p)) t
      in [(start p @ ''Timestamp'', map_option parseFloat sm),
          (end' p @ ''Timestamp'', map_option parseFloat em),
          (name p @ ''Duration'',
             if truthy (matchTime sm) \<and> truthy (matchTime em)
             then Some (js_sub (matchTime em) (matchTime sm)) else None),
          (''timeTo'' @ start p, None),
          (''timeTo'' @ end' p, None)])"

definition rawOps :: "Config \<Rightarrow> string \<Rightarrow> (string \<times> jsnum option) list" where
  "rawOps config t = concat (map (rawMarkerOps t) (customMarkers config))
     @ concat (map (rawPairOps t) (pairedMarkers config))"

definition relMarkerOps :: "string \<Rightarrow> (string \<times> string option) list" where
  "relMarkerOps m = [(m @ ''Timestamp'', None), (''timeTo'' @ m, Some (m @ ''Timestamp''))]"

definition relPairOps :: "PairedMarker \<Rightarrow> (string \<times> string option) list" where
  "relPairOps p =
     [(start p @ ''Timestamp'', None), (end' p @ ''Timestamp'', None),
      (name p @ ''Duration'', None),
      (''timeTo'' @ start p, Some (start p @ ''Timestamp'')),
      (''timeTo'' @ end' p, Some (end' p @ ''Timestamp''))]"

definition lifecycleRel :: "(string \<times> string) list" where
  "lifecycleRel =
     [(''timeToCreate'', ''activityCreateTimestamp''),
      (''timeToStart'', ''activityStartTimestamp''),
      (''timeToResume'', ''activityResumeTimestamp''),
      (''timeToFullyDrawn'', ''activityDrawnTimestamp'')]"

definition relOps :: "Config \<Rightarrow> (string \<times> string option) list" where
  "relOps config = map (\<lambda>(k, src). (k, Some src)) lifecycleRel
     @ map (\<lambda>k. (k, None)) absFixedKeys
     @ concat (map relMarkerOps (customMarkers config))
     @ concat (map relPairOps (pairedMarkers config))"

definition normMarkerOps :: "string \<Rightarrow> (string \<times> (jsnum \<Rightarrow> jsnum)) list" where
  "normMarkerOps m = [(m @ ''Timestamp'', normalizeTimestamp), (''timeTo'' @ m, toFixed3)]"

definition normPairOps :: "PairedMarker \<Rightarrow> (string \<times> (jsnum \<Rightarrow> jsnum)) list" where
  "normPairOps p =
     [(start p @ ''Timestamp'', normalizeTimestamp), (end' p @ ''Timestamp'', normalizeTimestamp),
      (name p @ ''Duration'', toFixed3),
      (''timeTo'' @ start p, toFixed3), (''timeTo'' @ end' p, toFixed3)]"

definition normOps :: "Config \<Rightarrow> (string \<times> (jsnum \<Rightarrow> jsnum)) list" where
  "normOps config = map (\<lambda>k. (k, normalizeTimestamp)) absFixedKeys
     @ concat (map normMarkerOps (customMarkers config))
     @ concat (map normPairOps (pairedMarkers config))"

text \<open>
  Two notions for the proofs about a name that a text does not hold: a pattern made of
  single-character atoms only, as a spliced name is, and a pattern that matches at the
  start of some suffix of a text.
\<close>

definition atoms :: "item list \<Rightarrow> bool" where
  "atoms q = (\<forall>x \<in> set q. \<exists>c. x = Atom c)"

definition occ :: "item list \<Rightarrow> string \<Rightarrow> bool" where
  "occ q s = (\<exists>s'. suffix s' s \<and> rmatch q s' False [] \<noteq> None)"

section \<open>Example inputs\<close>

text \<open>
  A configuration with one custom marker and one paired marker, and short traces in
  the line format of \<^verbatim>\<open>atrace\<close>, used to instantiate the theorems.
\<close>

definition exampleConfig :: Config where
  "exampleConfig = \<lparr>appPackage = ''com.example.app'', customMarkers = [''home_feed_loaded''],
     pairedMarkers = [\<lparr>start = ''load_start'', end' = ''load_end'', name = ''load''\<rparr>]\<rparr>"

text \<open>The \<^verbatim>\<open>markers.json\<close> of the README, for the package of the scripts.\<close>

definition readmeConfig :: Config where
  "readmeConfig = \<lparr>appPackage = ''com.example.app'',
     customMarkers = [''TEST_EVENT_MANUAL'', ''app_js_initialized'', ''first_screen_mounted'',
       ''feed_loaded''],
     pairedMarkers =
       [\<lparr>start = ''trace_watchlist_tap_start'', end' = ''trace_watchlist_fully_loaded_end'',
          name = ''watchlist_load''\<rparr>,
        \<lparr>start = ''trace_article_tap_start'', end' = ''trace_article_fully_loaded_end'',
          name = ''article_load''\<rparr>]\<rparr>"

definition traceStartupThenMarker :: string where
  "traceStartupThenMarker =
     ''s (1) [0] . 1.5: tracing_mark_write: B|1|Startup'' @ newline
     @ ''s (1) [0] . 2.25: tracing_mark_write: B|1|home_feed_loaded''"



definition tracePair :: string where
  "tracePair = ''1.25 load_start'' @ newline @ ''3.5 load_end''"

definition traceMentionThenZeroStartup :: string where
  "traceMentionThenZeroStartup =
     ''a (1) [0] . 7: com.example.app'' @ newline
     @ ''b (1) [0] . 0.0: tracing_mark_write: B|1|Startup''"

definition traceStartupSecond :: string where
  "traceStartupSecond =
     ''s (1) [0] . 1: tracing_mark_write: APPLICATION_START'' @ newline
     @ ''s (1) [0] . 2: tracing_mark_write: B|1|Startup''"

definition traceMicroseconds :: string where
  "traceMicroseconds =
     ''s (1) [0] . 2000000: tracing_mark_write: B|1|Startup'' @ newline
     @ ''s (1) [0] . 3500000: tracing_mark_write: B|1|home_feed_loaded''"





definition sharedEndConfig :: Config where
  "sharedEndConfig = \<lparr>appPackage = ''com.example.app'', customMarkers = [''feed_loaded''],
     pairedMarkers =
       [\<lparr>start = ''feed_tap_start'', end' = ''feed_loaded'', name = ''feed_navigation''\<rparr>]\<rparr>"

definition traceManualAfterTap :: string where
  "traceManualAfterTap = ''1.0 feed_tap_start'' @ newline @ ''2.0 TEST_EVENT_MANUAL''"

text \<open>
  A marker line without the fields of the line format, whose task name is abbreviated
  to \<^verbatim>\<open><...>\<close>.
\<close>

definition traceDotsBeforeMarker :: string where
  "traceDotsBeforeMarker =
     ''s (1) [0] . 1.5: tracing_mark_write: B|1|Startup'' @ newline
     @ ''<...>-12 home_feed_loaded''"

section \<open>Lemmas\<close>

subsection \<open>Patterns that match no text\<close>

lemma dead_star:
  assumes "\<And>s rec acc. rmatch q s rec acc = None"
  shows "rmatch (Star c # q) s rec acc = None"
  by (induction s arbitrary: acc) (simp_all add: assms)

lemma dead_lazy:
  assumes "\<And>s rec acc. rmatch q s rec acc = None"
  shows "rmatch (LazyStar c # q) s rec acc = None"
  by (induction s arbitrary: acc) (simp_all add: assms)

lemma dead_cons:
  assumes "\<And>s rec acc. rmatch q s rec acc = None"
  shows "rmatch (x # q) s rec acc = None"
proof (cases x)
  case (Atom c) then show ?thesis by (cases s) (simp_all add: assms)
next
  case (Star c) then show ?thesis by (simp add: dead_star assms)
next
  case (Plus c) then show ?thesis by (cases s) (simp_all add: dead_star assms)
next
  case (LazyStar c) then show ?thesis by (simp add: dead_lazy assms)
qed (simp_all add: assms)

lemma dead_append:
  assumes "\<And>s rec acc. rmatch q s rec acc = None"
  shows "rmatch (p @ q) s rec acc = None"
proof (induction p arbitrary: s rec acc)
  case Nil show ?case by (simp add: assms)
next
  case (Cons x p) show ?case using dead_cons [of "p @ q" x] Cons.IH by simp
qed

lemma js_match_dead:
  assumes "\<And>s rec acc. rmatch q s rec acc = None"
  shows "js_match (p @ q) t = None"
  by (induction t) (simp_all add: dead_append assms)

lemma unspliced_dead: "rmatch unspliced s rec acc = None"
  by (cases s) (simp_all add: unspliced_def lit_def)

lemma lifecyclePattern_dead: "js_match (lifecyclePattern ev) t = None"
proof -
  have "js_match ((num @ [Star Dot] @ lit ev @ [LazyStar Dot]) @ unspliced) t = None"
    by (rule js_match_dead [OF unspliced_dead])
  then show ?thesis by (simp add: lifecyclePattern_def)
qed

lemma lifecyclePattern1_dead: "js_match (lifecyclePattern1 ev) t = None"
proof -
  have "js_match ((num @ [Star Dot] @ lit ev @ [Star Dot]) @ unspliced) t = None"
    by (rule js_match_dead [OF unspliced_dead])
  then show ?thesis by (simp add: lifecyclePattern1_def)
qed

lemma lifecycleEvents_id: "lifecycleEvents t ms = ms"
  by (simp add: lifecycleEvents_def lifecyclePattern_dead setIfMatch_def)

lemma dead_two:
  "js_match (num @ [Star Dot] @ lit A @ [Star Dot] @ lit B @ [LazyStar Dot] @ unspliced) t = None"
  using js_match_dead [OF unspliced_dead,
      of "num @ [Star Dot] @ lit A @ [Star Dot] @ lit B @ [LazyStar Dot]" t]
  by simp

lemma dead_one:
  "js_match (num @ [Star Dot] @ lit A @ [LazyStar Dot] @ unspliced) t = None"
  using js_match_dead [OF unspliced_dead, of "num @ [Star Dot] @ lit A @ [LazyStar Dot]" t]
  by simp

lemma appStart_dead_tail:
  "\<forall>p \<in> set (drop 8 (appStartPatterns pkg)). js_match p t = None"
  using dead_one [of _ t] dead_two [of _ _ t]
  by (simp add: appStartPatterns_def)

subsection \<open>The first pattern of a list that matches\<close>

lemma firstMatch_Cons_None:
  "js_match p t = None \<Longrightarrow> firstMatch (p # ps) t = firstMatch ps t"
  by simp

lemma firstMatch_first:
  "i < length ps \<Longrightarrow> (\<forall>j < i. js_match (ps ! j) t = None) \<Longrightarrow> js_match (ps ! i) t = Some c \<Longrightarrow>
   firstMatch ps t = Some c"
proof (induction ps arbitrary: i)
  case Nil then show ?case by simp
next
  case (Cons p ps)
  show ?case
  proof (cases i)
    case 0 then show ?thesis using Cons.prems by simp
  next
    case (Suc k)
    have "js_match p t = None" using Cons.prems(2) Suc by auto
    moreover have "firstMatch ps t = Some c"
    proof (rule Cons.IH [of k])
      show "k < length ps" using Cons.prems(1) Suc by simp
      show "\<forall>j < k. js_match (ps ! j) t = None"
        using Cons.prems(2) Suc by auto
      show "js_match (ps ! k) t = Some c" using Cons.prems(3) Suc by simp
    qed
    ultimately show ?thesis by simp
  qed
qed

lemma firstMatch_none: "(\<forall>p \<in> set ps. js_match p t = None) \<Longrightarrow> firstMatch ps t = None"
  by (induction ps) simp_all

subsection \<open>Patterns that mention a name the text does not hold\<close>

lemma atoms_interp: "atoms (interp m)"
  by (auto simp: atoms_def interp_def)

lemma atoms_prefix:
  "atoms q \<Longrightarrow> rmatch (q @ r) s rec acc = Some c \<Longrightarrow> rmatch q s rec' acc' \<noteq> None"
proof (induction q arbitrary: s acc acc')
  case Nil then show ?case by simp
next
  case (Cons x q)
  from Cons.prems(1) obtain a where x: "x = Atom a" and aq: "atoms q"
    by (auto simp: atoms_def)
  show ?case
  proof (cases s)
    case Nil then show ?thesis using Cons.prems(2) x by simp
  next
    case (Cons y ys)
    then show ?thesis using Cons.prems(2) x Cons.IH [OF aq, of ys]
      by (auto split: if_splits)
  qed
qed

lemma occ_Cons: "occ q ys \<Longrightarrow> occ q (y # ys)"
  by (auto simp: occ_def suffix_Cons)

lemma occ_star:
  assumes "\<And>s rec acc. rmatch P s rec acc = Some c \<Longrightarrow> occ q s"
  shows "rmatch (Star a # P) s rec acc = Some c \<Longrightarrow> occ q s"
proof (induction s arbitrary: acc)
  case Nil then show ?case using assms by simp
next
  case (Cons y ys)
  then show ?case using assms
    by (auto split: if_splits option.splits intro: occ_Cons)
qed

lemma occ_lazy:
  assumes "\<And>s rec acc. rmatch P s rec acc = Some c \<Longrightarrow> occ q s"
  shows "rmatch (LazyStar a # P) s rec acc = Some c \<Longrightarrow> occ q s"
proof (induction s arbitrary: acc)
  case Nil then show ?case using assms by simp
next
  case (Cons y ys)
  then show ?case using assms
    by (auto split: if_splits option.splits intro: occ_Cons)
qed

lemma occ_inside:
  "atoms q \<Longrightarrow> rmatch (p @ q @ r) s rec acc = Some c \<Longrightarrow> occ q s"
proof (induction p arbitrary: s rec acc)
  case Nil
  then have "rmatch q s False [] \<noteq> None" using atoms_prefix by simp
  then show ?case by (auto simp: occ_def)
next
  case (Cons x p)
  have IH: "\<And>s rec acc. rmatch (p @ q @ r) s rec acc = Some c \<Longrightarrow> occ q s"
    using Cons.IH [OF Cons.prems(1)] .
  show ?case
  proof (cases x)
    case (Atom a)
    then show ?thesis using Cons.prems(2) IH
      by (cases s) (auto split: if_splits intro: occ_Cons)
  next
    case (Star a)
    then show ?thesis using Cons.prems(2) occ_star [of "p @ q @ r" c q, OF IH] by simp
  next
    case (Plus a)
    then show ?thesis using Cons.prems(2) occ_star [of "p @ q @ r" c q, OF IH]
      by (cases s) (auto split: if_splits intro: occ_Cons)
  next
    case (LazyStar a)
    then show ?thesis using Cons.prems(2) occ_lazy [of "p @ q @ r" c q, OF IH] by simp
  next
    case GroupOpen
    then show ?thesis using Cons.prems(2) IH by simp
  next
    case GroupClose
    then show ?thesis using Cons.prems(2) IH by simp
  next
    case EndOfInput
    then show ?thesis using Cons.prems(2) IH by (simp split: if_splits)
  qed
qed

lemma js_match_suffix:
  "js_match P t = Some c \<Longrightarrow> \<exists>s'. suffix s' t \<and> rmatch P s' False [] = Some c"
proof (induction t)
  case Nil then show ?case by auto
next
  case (Cons x xs)
  then show ?case
    by (cases "rmatch P (x # xs) False []") (auto simp: suffix_Cons)
qed

lemma occ_js_match: "occ q t \<Longrightarrow> js_match q t \<noteq> None"
proof (induction t)
  case Nil then show ?case by (auto simp: occ_def)
next
  case (Cons x xs)
  then show ?case
    by (cases "rmatch q (x # xs) False []") (auto simp: occ_def suffix_Cons)
qed

lemma occ_suffix: "suffix s' t \<Longrightarrow> occ q s' \<Longrightarrow> occ q t"
  by (auto simp: occ_def intro: suffix_order.trans)

lemma no_mention_no_match:
  assumes "js_match (interp m) t = None"
  shows "js_match (p @ interp m @ r) t = None"
proof (rule ccontr)
  assume "js_match (p @ interp m @ r) t \<noteq> None"
  then obtain c where "js_match (p @ interp m @ r) t = Some c" by auto
  then obtain s' where s: "suffix s' t" and m: "rmatch (p @ interp m @ r) s' False [] = Some c"
    using js_match_suffix by blast
  have "occ (interp m) s'" using occ_inside [OF atoms_interp m] .
  then have "occ (interp m) t" using occ_suffix [OF s] by simp
  then show False using occ_js_match assms by blast
qed

lemma marker_only_manual:
  assumes "js_match (interp m) t = None"
  shows "firstMatch (markerPatterns m) t =
     (case js_match (num @ [Star Dot] @ lit ''TEST_EVENT_MANUAL'') t of
        Some c \<Rightarrow> Some c
      | None \<Rightarrow> js_match (num @ [Star Dot] @ lit ''test_event_manual'') t)"
proof -
  note nm = no_mention_no_match [OF assms]
  have 1: "js_match (markWrite @ [Plus Space, Plus Word, Atom (Lit (CHR ''|'')), Plus Digit,
        Atom (Lit (CHR ''|''))] @ interp m) t = None"
    using nm [of "markWrite @ [Plus Space, Plus Word, Atom (Lit (CHR ''|'')), Plus Digit,
        Atom (Lit (CHR ''|''))]" "[]"] by simp
  have 2: "js_match (markWrite @ [Star Dot] @ interp m) t = None"
    using nm [of "markWrite @ [Star Dot]" "[]"] by simp
  have 3: "js_match (num @ [Star Dot] @ lit ''PerfettoTracer'' @ [Star Dot] @ lit ''beginTrace''
        @ [Star Dot] @ interp m) t = None"
    using nm [of "num @ [Star Dot] @ lit ''PerfettoTracer'' @ [Star Dot] @ lit ''beginTrace''
        @ [Star Dot]" "[]"] by simp
  have 4: "js_match (num @ [Star Dot] @ lit ''PerfettoTracer'' @ [Star Dot] @ interp m) t = None"
    using nm [of "num @ [Star Dot] @ lit ''PerfettoTracer'' @ [Star Dot]" "[]"] by simp
  have 5: "js_match (num @ [Star Dot] @ lit ''beginTrace'' @ [Star Dot] @ interp m) t = None"
    using nm [of "num @ [Star Dot] @ lit ''beginTrace'' @ [Star Dot]" "[]"] by simp
  have 6: "js_match (num @ [Star Dot] @ interp m @ [Star Dot] @ lit ''begin'') t = None"
    using nm [of "num @ [Star Dot]" "[Star Dot] @ lit ''begin''"] by simp
  have 7: "js_match (num @ [Star Dot] @ lit ''begin'' @ [Star Dot] @ interp m) t = None"
    using nm [of "num @ [Star Dot] @ lit ''begin'' @ [Star Dot]" "[]"] by simp
  have 10: "js_match (num @ [Star Dot] @ interp m) t = None"
    using nm [of "num @ [Star Dot]" "[]"] by simp
  show ?thesis
    unfolding markerPatterns_def
    by (simp only: firstMatch.simps 1 2 3 4 5 6 7 10 option.case split: option.splits) simp
qed

lemma marker2_only_manual:
  assumes "js_match (interp m) t = None"
  shows "firstMatch (markerPatterns2 m) t =
     (case js_match (num @ [Star Dot] @ lit ''TEST_EVENT_MANUAL'') t of
        Some c \<Rightarrow> Some c
      | None \<Rightarrow> js_match (num @ [Star Dot] @ lit ''test_event_manual'') t)"
proof -
  note nm = no_mention_no_match [OF assms]
  have 3: "js_match (num @ [Star Dot] @ lit ''PerfettoTracer'' @ [Star Dot] @ lit ''beginTrace''
        @ [Star Dot] @ interp m) t = None"
    using nm [of "num @ [Star Dot] @ lit ''PerfettoTracer'' @ [Star Dot] @ lit ''beginTrace''
        @ [Star Dot]" "[]"] by simp
  have 4: "js_match (num @ [Star Dot] @ lit ''PerfettoTracer'' @ [Star Dot] @ interp m) t = None"
    using nm [of "num @ [Star Dot] @ lit ''PerfettoTracer'' @ [Star Dot]" "[]"] by simp
  have 5: "js_match (num @ [Star Dot] @ lit ''beginTrace'' @ [Star Dot] @ interp m) t = None"
    using nm [of "num @ [Star Dot] @ lit ''beginTrace'' @ [Star Dot]" "[]"] by simp
  have 6: "js_match (num @ [Star Dot] @ interp m @ [Star Dot] @ lit ''begin'') t = None"
    using nm [of "num @ [Star Dot]" "[Star Dot] @ lit ''begin''"] by simp
  have 7: "js_match (num @ [Star Dot] @ lit ''begin'' @ [Star Dot] @ interp m) t = None"
    using nm [of "num @ [Star Dot] @ lit ''begin'' @ [Star Dot]" "[]"] by simp
  have 10: "js_match (num @ [Star Dot] @ interp m) t = None"
    using nm [of "num @ [Star Dot]" "[]"] by simp
  show ?thesis
    unfolding markerPatterns2_def
    by (simp only: firstMatch.simps 3 4 5 6 7 10 option.case split: option.splits) simp
qed

subsection \<open>Folding guarded writes\<close>

lemma assign_apply:
  "assign (k', vo) M k = (if k = k' then (case vo of Some v \<Rightarrow> Some v | None \<Rightarrow> M k) else M k)"
  by (simp add: assign_def split: option.splits)

lemma relOp_apply:
  "relOp a (k', so) M k =
     (if k = k' then
        (case so of
           None \<Rightarrow> M k
         | Some src \<Rightarrow> (case M src of
               Some v \<Rightarrow> if truthy v then Some (js_sub v a) else M k
             | None \<Rightarrow> M k))
      else M k)"
  by (simp add: relOp_def setRel_def split: option.splits)

lemma updOp_apply:
  "updOp (k', f) M k =
     (if k = k' then map_option (\<lambda>v. if truthy v then f v else v) (M k) else M k)"
  by (simp add: updOp_def updIfTruthy_def split: option.splits)

lemma updIfTruthy_apply:
  "updIfTruthy k' f M k =
     (if k = k' then map_option (\<lambda>v. if truthy v then f v else v) (M k) else M k)"
  by (simp add: updIfTruthy_def split: option.splits)

lemma setRel_apply:
  "setRel k' v a M k =
     (if k = k' then
        (case v of Some x \<Rightarrow> if truthy x then Some (js_sub x a) else M k | None \<Rightarrow> M k)
      else M k)"
  by (simp add: setRel_def split: option.splits)

lemma fold_assign_other:
  "k \<notin> fst ` set ops \<Longrightarrow> fold assign ops M k = M k"
  by (induction ops arbitrary: M) (auto simp: assign_apply)

lemma fold_assign_key:
  "distinct (map fst ops) \<Longrightarrow> (k, vo) \<in> set ops \<Longrightarrow>
   fold assign ops M k = (case vo of Some v \<Rightarrow> Some v | None \<Rightarrow> M k)"
proof (induction ops arbitrary: M)
  case Nil then show ?case by simp
next
  case (Cons op ops)
  show ?case
  proof (cases "op = (k, vo)")
    case True
    with Cons.prems have "k \<notin> fst ` set ops" by auto
    then show ?thesis using True
      by (simp add: fold_assign_other assign_apply)
  next
    case False
    with Cons.prems have in_rest: "(k, vo) \<in> set ops" and d: "distinct (map fst ops)"
      and ne: "fst op \<noteq> k" by (auto simp: rev_image_eqI)
    show ?thesis using Cons.IH [OF d in_rest] ne
      by (cases op) (auto simp: assign_apply split: option.splits)
  qed
qed

lemma fold_relOp_other:
  "k \<notin> fst ` set ops \<Longrightarrow> fold (relOp a) ops M k = M k"
  by (induction ops arbitrary: M) (auto simp: relOp_apply)

lemma fold_relOp_key:
  "distinct (map fst ops) \<Longrightarrow> (k, so) \<in> set ops \<Longrightarrow>
   (\<forall>src x. so = Some src \<longrightarrow> (src, Some x) \<notin> set ops) \<Longrightarrow>
   fold (relOp a) ops M k =
     (case so of
        None \<Rightarrow> M k
      | Some src \<Rightarrow> (case M src of
            Some v \<Rightarrow> if truthy v then Some (js_sub v a) else M k
          | None \<Rightarrow> M k))"
proof (induction ops arbitrary: M)
  case Nil then show ?case by simp
next
  case (Cons op ops)
  show ?case
  proof (cases "op = (k, so)")
    case True
    with Cons.prems have "k \<notin> fst ` set ops" by auto
    then show ?thesis using True
      by (simp add: fold_relOp_other relOp_apply)
  next
    case False
    with Cons.prems have in_rest: "(k, so) \<in> set ops" and d: "distinct (map fst ops)"
      and ne: "fst op \<noteq> k" by (auto simp: rev_image_eqI)
    have stable: "\<forall>src x. so = Some src \<longrightarrow> (src, Some x) \<notin> set ops"
      using Cons.prems(3) by auto
    have src_same: "so = Some src \<Longrightarrow> relOp a op M src = M src" for src
      using Cons.prems(3) by (cases op) (auto simp: relOp_apply split: option.splits)
    have k_same: "relOp a op M k = M k"
      using ne by (cases op) (auto simp: relOp_apply)
    show ?thesis using Cons.IH [OF d in_rest stable, of "relOp a op M"] src_same k_same
      by (simp split: option.splits)
  qed
qed

lemma fold_updOp_other:
  "k \<notin> fst ` set ops \<Longrightarrow> fold updOp ops M k = M k"
  by (induction ops arbitrary: M) (auto simp: updOp_apply)

lemma fold_updOp_key:
  "distinct (map fst ops) \<Longrightarrow> (k, f) \<in> set ops \<Longrightarrow>
   fold updOp ops M k = map_option (\<lambda>v. if truthy v then f v else v) (M k)"
proof (induction ops arbitrary: M)
  case Nil then show ?case by simp
next
  case (Cons op ops)
  show ?case
  proof (cases "op = (k, f)")
    case True
    with Cons.prems have "k \<notin> fst ` set ops" by auto
    then show ?thesis using True
      by (simp add: fold_updOp_other updOp_apply)
  next
    case False
    with Cons.prems have in_rest: "(k, f) \<in> set ops" and d: "distinct (map fst ops)"
      and ne: "fst op \<noteq> k" by (auto simp: rev_image_eqI)
    have k_same: "updOp op M k = M k"
      using ne by (cases op) (auto simp: updOp_apply)
    show ?thesis using Cons.IH [OF d in_rest, of "updOp op M"] k_same by simp
  qed
qed

lemma fold_concat_map:
  "(\<And>x M. f x M = fold g (h x) M) \<Longrightarrow> fold f xs M = fold g (concat (map h xs)) M"
  by (induction xs arbitrary: M) simp_all

lemma fold_concat_map_on:
  "(\<And>x M. x \<in> set xs \<Longrightarrow> f x M = fold g (h x) M) \<Longrightarrow>
   fold f xs M = fold g (concat (map h xs)) M"
  by (induction xs arbitrary: M) simp_all

lemma distinct_concat_elem:
  "distinct (concat (map f xs)) \<Longrightarrow> x \<in> set xs \<Longrightarrow> distinct (f x)"
  by (induction xs) auto

lemma fold_keep: "(\<And>x s. f x s = s) \<Longrightarrow> fold f xs s = s"
  by (induction xs arbitrary: s) simp_all

subsection \<open>Each block is the fold of its operation list\<close>

lemma markerStep_ops: "markerStep t m M = fold assign (rawMarkerOps t m) M"
  by (simp add: markerStep_def rawMarkerOps_def assign_def setIfMatch_def split: option.splits)

lemma pairStep_ops: "pairStep t p M = fold assign (rawPairOps t p) M"
  by (simp add: pairStep_def rawPairOps_def assign_def setIfMatch_def Let_def
           split: option.splits)

lemma extractRaw_ops:
  "extractRaw config t =
     fold assign (rawOps config t)
       (Map.empty(''appStartTimestamp'' \<mapsto> resolveAppStart config t))"
  by (simp add: extractRaw_def rawOps_def lifecycleEvents_id Let_def
        fold_concat_map [of "markerStep t" assign "rawMarkerOps t", OF markerStep_ops]
        fold_concat_map [of "pairStep t" assign "rawPairOps t", OF pairStep_ops])

lemma map_fst_rawOps:
  "map fst (rawOps config t) =
     concat (map markerKeys (customMarkers config)) @ concat (map pairKeys (pairedMarkers config))"
  by (simp add: rawOps_def map_concat comp_def rawMarkerOps_def rawPairOps_def
        markerKeys_def [abs_def] pairKeys_def [abs_def] Let_def)

lemma map_fst_relOps: "map fst (relOps config) = metricKeys config"
  by (simp add: relOps_def metricKeys_def map_concat comp_def relMarkerOps_def relPairOps_def
        markerKeys_def [abs_def] pairKeys_def [abs_def] relFixedKeys_def lifecycleRel_def)

lemma map_fst_normOps:
  "map fst (normOps config) = absFixedKeys
     @ concat (map markerKeys (customMarkers config)) @ concat (map pairKeys (pairedMarkers config))"
  by (simp add: normOps_def map_concat comp_def normMarkerOps_def normPairOps_def
        markerKeys_def [abs_def] pairKeys_def [abs_def])

lemma relMarkerStep_ops: "relMarkerStep a m M = fold (relOp a) (relMarkerOps m) M"
  by (simp add: relMarkerStep_def relMarkerOps_def relOp_def)

lemma relPairStep_ops:
  "''timeTo'' @ start p \<noteq> end' p @ ''Timestamp'' \<Longrightarrow>
   relPairStep a p M = fold (relOp a) (relPairOps p) M"
  by (auto simp: relPairStep_def relPairOps_def relOp_def setRel_def Let_def
           split: option.splits)

lemma normMarkerStep_ops: "normMarkerStep m M = fold updOp (normMarkerOps m) M"
  by (simp add: normMarkerStep_def normMarkerOps_def updOp_def)

lemma normPairStep_ops: "normPairStep p M = fold updOp (normPairOps p) M"
  by (simp add: normPairStep_def normPairOps_def updOp_def)

lemma normalizeAll_ops: "normalizeAll config M = fold updOp (normOps config) M"
  by (simp add: normalizeAll_def normOps_def Let_def absFixedKeys_def updOp_def
        fold_concat_map [of normMarkerStep updOp normMarkerOps, OF normMarkerStep_ops]
        fold_concat_map [of normPairStep updOp normPairOps, OF normPairStep_ops])

lemma relativeOffsets_ops:
  assumes d: "distinct (metricKeys config)" and a: "truthy a"
  shows "relativeOffsets config a M = fold (relOp a) (relOps config) M"
proof -
  have dp: "distinct (concat (map pairKeys (pairedMarkers config)))"
    using d by (simp add: metricKeys_def)
  have ne: "''timeTo'' @ start p \<noteq> end' p @ ''Timestamp''"
    if "p \<in> set (pairedMarkers config)" for p
    using distinct_concat_elem [OF dp that] by (auto simp: pairKeys_def)
  have pairs: "fold (relPairStep a) (pairedMarkers config) M' =
      fold (relOp a) (concat (map relPairOps (pairedMarkers config))) M'" for M'
  proof (rule fold_concat_map_on [where h = relPairOps and g = "relOp a"])
    fix x M
    assume "x \<in> set (pairedMarkers config)"
    then show "relPairStep a x M = fold (relOp a) (relPairOps x) M"
      by (intro relPairStep_ops ne)
  qed
  show ?thesis using a
    by (simp add: relativeOffsets_def relOps_def Let_def absFixedKeys_def lifecycleRel_def pairs
          fold_concat_map [of "relMarkerStep a" "relOp a" relMarkerOps, OF relMarkerStep_ops]
          relOp_def)
qed

subsection \<open>Rounding and truthiness\<close>

lemma floor_half: "\<lfloor>(1::rat) / 2\<rfloor> = 0"
  by (rule floor_unique) simp_all

lemma round3_0 [simp]: "round3 0 = 0"
  by (simp add: round3_def floor_half)

lemma round3_nonzero:
  assumes "1 \<le> y"
  shows "round3 y \<noteq> 0"
proof -
  have "1 \<le> y * 1000 + 1 / 2" using assms by linarith
  then have "0 < \<lfloor>y * 1000 + 1 / 2\<rfloor>" by (simp only: zero_less_floor)
  then have "\<lfloor>y * 1000 + 1 / 2\<rfloor> \<noteq> 0" by linarith
  then show ?thesis using assms by (simp add: round3_def)
qed



lemma normalize_falsy: "\<not> truthy v \<Longrightarrow> normalizeTimestamp v = v"
  by (cases v) auto

lemma toFixed3_falsy: "\<not> truthy v \<Longrightarrow> toFixed3 v = v"
  by (cases v) auto

lemma if_truthy_normalize: "(\<lambda>v. if truthy v then normalizeTimestamp v else v) = normalizeTimestamp"
  by (rule ext) (simp add: normalize_falsy)

lemma if_truthy_toFixed3: "(\<lambda>v. if truthy v then toFixed3 v else v) = toFixed3"
  by (rule ext) (simp add: toFixed3_falsy)

lemma normalize_small: "x \<le> 1000000 \<Longrightarrow> normalizeTimestamp (Num x) = Num x"
  by simp

lemma truthy_normalize: "truthy (normalizeTimestamp v) = truthy v"
proof (cases v)
  case NaN then show ?thesis by simp
next
  case (Num t)
  show ?thesis
  proof (cases "t > 1000000")
    case True
    then have "1 \<le> t / 1000000" by simp
    then have "round3 (t / 1000000) \<noteq> 0" by (rule round3_nonzero)
    then show ?thesis using Num True by simp
  next
    case False
    then show ?thesis using Num by simp
  qed
qed



subsection \<open>The returned metric set, key by key\<close>

lemma processTraceData_stages:
  "processTraceData config t =
     normalizeAll config
       (relativeOffsets config (resolveAppStart config t) (extractRaw config t))"
  by (simp add: processTraceData_def Let_def)

lemma wf_distinct: "wf_config config \<Longrightarrow> distinct (metricKeys config)"
  by (simp add: wf_config_def)

lemma distinct_parts:
  assumes "distinct (metricKeys config)"
  shows "distinct (map fst (rawOps config t))"
    and "distinct (map fst (relOps config))"
    and "distinct (map fst (normOps config))"
  using assms by (simp_all add: map_fst_rawOps map_fst_relOps map_fst_normOps metricKeys_def)

lemma abs_in_relOps: "k \<in> set (absKeys config) \<Longrightarrow> (k, None) \<in> set (relOps config)"
  by (auto simp: absKeys_def relOps_def relMarkerOps_def relPairOps_def)

lemma abs_in_normOps:
  "k \<in> set (absKeys config) \<Longrightarrow> (k, normalizeTimestamp) \<in> set (normOps config)"
  by (auto simp: absKeys_def normOps_def normMarkerOps_def normPairOps_def)

lemma marker_in_absKeys:
  "m \<in> set (customMarkers config) \<Longrightarrow> m @ ''Timestamp'' \<in> set (absKeys config)"
  by (simp add: absKeys_def)

lemma pair_in_absKeys:
  "p \<in> set (pairedMarkers config) \<Longrightarrow>
   start p @ ''Timestamp'' \<in> set (absKeys config) \<and> end' p @ ''Timestamp'' \<in> set (absKeys config)"
  by (auto simp: absKeys_def)

lemma anchor_in_absKeys: "''appStartTimestamp'' \<in> set (absKeys config)"
  by (simp add: absKeys_def absFixedKeys_def)

lemma lifecycleRel_fst: "map fst lifecycleRel = relFixedKeys"
  by (simp add: lifecycleRel_def relFixedKeys_def)

lemma lifecycleRel_snd: "map snd lifecycleRel = tl absFixedKeys"
  by (simp add: lifecycleRel_def absFixedKeys_def)

lemma rel_stage_unchanged:
  assumes d: "distinct (metricKeys config)" and k: "(k, None) \<in> set (relOps config)"
  shows "relativeOffsets config a M k = M k"
proof (cases "truthy a")
  case True
  show ?thesis
    using fold_relOp_key [OF distinct_parts(2) [OF d] k, of a M]
    by (simp add: relativeOffsets_ops [OF d True])
next
  case False
  then show ?thesis by (simp add: relativeOffsets_def)
qed

lemma final_abs:
  assumes d: "distinct (metricKeys config)" and k: "k \<in> set (absKeys config)"
  shows "processTraceData config t k = map_option normalizeTimestamp (extractRaw config t k)"
  using fold_updOp_key [OF distinct_parts(3) [OF d] abs_in_normOps [OF k]]
    rel_stage_unchanged [OF d abs_in_relOps [OF k]]
  by (simp add: processTraceData_stages normalizeAll_ops if_truthy_normalize)

lemma raw_key:
  assumes d: "distinct (metricKeys config)" and k: "(k, vo) \<in> set (rawOps config t)"
  shows "extractRaw config t k = vo"
proof -
  have "k \<in> set (map fst (rawOps config t))" using k by force
  then have "k \<noteq> ''appStartTimestamp''"
    using d by (auto simp: map_fst_rawOps metricKeys_def absFixedKeys_def)
  then show ?thesis
    using fold_assign_key [OF distinct_parts(1) [OF d] k]
    by (simp add: extractRaw_ops split: option.splits)
qed

lemma raw_anchor:
  assumes d: "distinct (metricKeys config)"
  shows "extractRaw config t ''appStartTimestamp'' = Some (resolveAppStart config t)"
proof -
  have "''appStartTimestamp'' \<notin> set (map fst (rawOps config t))"
    using d by (auto simp: map_fst_rawOps metricKeys_def absFixedKeys_def)
  then show ?thesis by (simp add: extractRaw_ops fold_assign_other)
qed

lemma raw_fixed_none:
  assumes d: "distinct (metricKeys config)"
    and k: "k \<in> set relFixedKeys \<union> set (tl absFixedKeys)"
  shows "extractRaw config t k = None"
proof -
  have tl_sub: "set (tl absFixedKeys) \<subseteq> set absFixedKeys"
    by (simp add: absFixedKeys_def subset_insertI)
  have hd_in: "''appStartTimestamp'' \<in> set absFixedKeys" by (simp add: absFixedKeys_def)
  have "k \<in> set relFixedKeys \<union> set absFixedKeys" using k tl_sub by auto
  then have "k \<notin> set (map fst (rawOps config t))"
    using d by (auto simp: map_fst_rawOps metricKeys_def)
  moreover have "k \<noteq> ''appStartTimestamp''"
  proof (cases "k \<in> set relFixedKeys")
    case True
    then show ?thesis using d hd_in by (auto simp: metricKeys_def)
  next
    case False
    then have "k \<in> set (tl absFixedKeys)" using k by simp
    moreover have "distinct absFixedKeys" using d by (simp add: metricKeys_def)
    ultimately show ?thesis by (auto simp: absFixedKeys_def)
  qed
  ultimately show ?thesis by (simp add: extractRaw_ops fold_assign_other)
qed

lemma raw_marker:
  assumes d: "distinct (metricKeys config)" and m: "m \<in> set (customMarkers config)"
  shows "extractRaw config t (m @ ''Timestamp'') =
     map_option parseFloat (firstMatch (markerPatterns m) t)"
proof -
  have "(m @ ''Timestamp'', map_option parseFloat (firstMatch (markerPatterns m) t))
      \<in> set (rawOps config t)"
    using m by (auto simp: rawOps_def rawMarkerOps_def)
  then show ?thesis by (rule raw_key [OF d])
qed

lemma raw_pair_start:
  assumes d: "distinct (metricKeys config)" and p: "p \<in> set (pairedMarkers config)"
  shows "extractRaw config t (start p @ ''Timestamp'') =
     map_option parseFloat (firstMatch (pairPatterns (start p)) t)"
proof -
  have "(start p @ ''Timestamp'', map_option parseFloat (firstMatch (pairPatterns (start p)) t))
      \<in> set (rawOps config t)"
    using p by (auto simp: rawOps_def rawPairOps_def Let_def)
  then show ?thesis by (rule raw_key [OF d])
qed

lemma raw_pair_end:
  assumes d: "distinct (metricKeys config)" and p: "p \<in> set (pairedMarkers config)"
  shows "extractRaw config t (end' p @ ''Timestamp'') =
     map_option parseFloat (firstMatch (pairPatterns (end' p)) t)"
proof -
  have "(end' p @ ''Timestamp'', map_option parseFloat (firstMatch (pairPatterns (end' p)) t))
      \<in> set (rawOps config t)"
    using p by (auto simp: rawOps_def rawPairOps_def Let_def)
  then show ?thesis by (rule raw_key [OF d])
qed

lemma final_anchor:
  assumes d: "distinct (metricKeys config)"
  shows "processTraceData config t ''appStartTimestamp'' =
     Some (normalizeTimestamp (resolveAppStart config t))"
  by (simp add: final_abs [OF d anchor_in_absKeys] raw_anchor [OF d])

lemma final_marker:
  assumes d: "distinct (metricKeys config)" and m: "m \<in> set (customMarkers config)"
  shows "processTraceData config t (m @ ''Timestamp'') =
     map_option (\<lambda>c. normalizeTimestamp (parseFloat c)) (firstMatch (markerPatterns m) t)"
  by (simp add: final_abs [OF d marker_in_absKeys [OF m]] raw_marker [OF d m]
        option.map_comp comp_def)

lemma final_pair_start:
  assumes d: "distinct (metricKeys config)" and p: "p \<in> set (pairedMarkers config)"
  shows "processTraceData config t (start p @ ''Timestamp'') =
     map_option (\<lambda>c. normalizeTimestamp (parseFloat c)) (firstMatch (pairPatterns (start p)) t)"
  by (simp add: final_abs [OF d pair_in_absKeys [OF p, THEN conjunct1]] raw_pair_start [OF d p]
        option.map_comp comp_def)

lemma final_pair_end:
  assumes d: "distinct (metricKeys config)" and p: "p \<in> set (pairedMarkers config)"
  shows "processTraceData config t (end' p @ ''Timestamp'') =
     map_option (\<lambda>c. normalizeTimestamp (parseFloat c)) (firstMatch (pairPatterns (end' p)) t)"
  by (simp add: final_abs [OF d pair_in_absKeys [OF p, THEN conjunct2]] raw_pair_end [OF d p]
        option.map_comp comp_def)

lemma final_lifecycle_none:
  assumes d: "distinct (metricKeys config)" and k: "k \<in> set (tl absFixedKeys)"
  shows "processTraceData config t k = None"
proof -
  have "k \<in> set absFixedKeys" using k by (auto simp: absFixedKeys_def)
  then have "k \<in> set (absKeys config)" by (simp add: absKeys_def)
  then show ?thesis using final_abs [OF d] raw_fixed_none [OF d, of k] k by simp
qed

lemma final_rel:
  assumes d: "distinct (metricKeys config)"
    and k: "(k, Some src) \<in> set (relOps config)"
    and src: "(src, None) \<in> set (relOps config)"
    and raw: "extractRaw config t k = None"
    and n: "(k, toFixed3) \<in> set (normOps config)"
  shows "processTraceData config t k =
     (if truthy (resolveAppStart config t) then
        (case extractRaw config t src of
           Some v \<Rightarrow> if truthy v then Some (toFixed3 (js_sub v (resolveAppStart config t))) else None
         | None \<Rightarrow> None)
      else None)"
proof -
  let ?a = "resolveAppStart config t"
  let ?M = "extractRaw config t"
  have stable: "\<forall>s x. Some src = Some s \<longrightarrow> (s, Some x) \<notin> set (relOps config)"
    using eq_key_imp_eq_value [OF distinct_parts(2) [OF d] src] by auto
  have rel: "relativeOffsets config ?a ?M k =
      (if truthy ?a then
        (case ?M src of Some v \<Rightarrow> if truthy v then Some (js_sub v ?a) else None | None \<Rightarrow> None)
       else None)"
  proof (cases "truthy ?a")
    case True
    show ?thesis
      using fold_relOp_key [OF distinct_parts(2) [OF d] k stable, of ?a ?M] raw True
      by (simp add: relativeOffsets_ops [OF d True] split: option.splits)
  next
    case False
    then show ?thesis by (simp add: relativeOffsets_def raw)
  qed
  show ?thesis
    using fold_updOp_key [OF distinct_parts(3) [OF d] n, of "relativeOffsets config ?a ?M"]
    by (simp add: processTraceData_stages normalizeAll_ops if_truthy_toFixed3 rel
          split: option.splits)
qed

lemma final_rel_fixed:
  assumes d: "distinct (metricKeys config)" and k: "k \<in> set relFixedKeys"
  shows "processTraceData config t k = None"
proof -
  let ?a = "resolveAppStart config t"
  let ?M = "extractRaw config t"
  have "k \<in> fst ` set lifecycleRel" using k by (simp add: lifecycleRel_fst [symmetric])
  then obtain src where ls: "(k, src) \<in> set lifecycleRel" by force
  then have "src \<in> snd ` set lifecycleRel" by force
  then have s: "src \<in> set (tl absFixedKeys)" by (simp add: lifecycleRel_snd [symmetric])
  have ks: "(k, Some src) \<in> set (relOps config)"
    using ls by (force simp: relOps_def)
  have "src \<in> set absFixedKeys" using s by (rule list.set_sel(2) [rotated]) (simp add: absFixedKeys_def)
  then have srcN: "(src, None) \<in> set (relOps config)"
    by (simp add: relOps_def)
  have stable: "\<forall>s x. Some src = Some s \<longrightarrow> (s, Some x) \<notin> set (relOps config)"
    using eq_key_imp_eq_value [OF distinct_parts(2) [OF d] srcN] by auto
  have rawk: "?M k = None" using raw_fixed_none [OF d] k by simp
  have raws: "?M src = None" using raw_fixed_none [OF d] s by simp
  have rel: "relativeOffsets config ?a ?M k = None"
  proof (cases "truthy ?a")
    case True
    show ?thesis
      using fold_relOp_key [OF distinct_parts(2) [OF d] ks stable, of ?a ?M] rawk raws
      by (simp add: relativeOffsets_ops [OF d True])
  next
    case False
    then show ?thesis by (simp add: relativeOffsets_def rawk)
  qed
  have "k \<notin> fst ` set (normOps config)"
  proof -
    have "k \<notin> set (map fst (normOps config))"
      using d k by (auto simp: map_fst_normOps metricKeys_def)
    then show ?thesis by simp
  qed
  then show ?thesis
    by (simp add: processTraceData_stages normalizeAll_ops fold_updOp_other rel)
qed

lemma final_rel_marker:
  assumes d: "distinct (metricKeys config)" and m: "m \<in> set (customMarkers config)"
  shows "processTraceData config t (''timeTo'' @ m) =
     (if truthy (resolveAppStart config t) then
        (case firstMatch (markerPatterns m) t of
           Some c \<Rightarrow>
             if truthy (parseFloat c)
             then Some (toFixed3 (js_sub (parseFloat c) (resolveAppStart config t))) else None
         | None \<Rightarrow> None)
      else None)"
proof -
  have k: "(''timeTo'' @ m, Some (m @ ''Timestamp'')) \<in> set (relOps config)"
    using m by (auto simp: relOps_def relMarkerOps_def)
  have src: "(m @ ''Timestamp'', None) \<in> set (relOps config)"
    using m by (auto simp: relOps_def relMarkerOps_def)
  have r: "(''timeTo'' @ m, None) \<in> set (rawOps config t)"
    using m by (auto simp: rawOps_def rawMarkerOps_def)
  have n: "(''timeTo'' @ m, toFixed3) \<in> set (normOps config)"
    using m by (auto simp: normOps_def normMarkerOps_def)
  show ?thesis
    using final_rel [OF d k src raw_key [OF d r] n, of ] raw_marker [OF d m, of t]
    by (simp split: option.splits)
qed

lemma final_rel_start:
  assumes d: "distinct (metricKeys config)" and p: "p \<in> set (pairedMarkers config)"
  shows "processTraceData config t (''timeTo'' @ start p) =
     (if truthy (resolveAppStart config t) then
        (case firstMatch (pairPatterns (start p)) t of
           Some c \<Rightarrow>
             if truthy (parseFloat c)
             then Some (toFixed3 (js_sub (parseFloat c) (resolveAppStart config t))) else None
         | None \<Rightarrow> None)
      else None)"
proof -
  have k: "(''timeTo'' @ start p, Some (start p @ ''Timestamp'')) \<in> set (relOps config)"
    using p by (auto simp: relOps_def relPairOps_def)
  have src: "(start p @ ''Timestamp'', None) \<in> set (relOps config)"
    using p by (auto simp: relOps_def relPairOps_def)
  have r: "(''timeTo'' @ start p, None) \<in> set (rawOps config t)"
    using p by (auto simp: rawOps_def rawPairOps_def Let_def)
  have n: "(''timeTo'' @ start p, toFixed3) \<in> set (normOps config)"
    using p by (auto simp: normOps_def normPairOps_def)
  show ?thesis
    using final_rel [OF d k src raw_key [OF d r] n] raw_pair_start [OF d p, of t]
    by (simp split: option.splits)
qed

lemma final_rel_end:
  assumes d: "distinct (metricKeys config)" and p: "p \<in> set (pairedMarkers config)"
  shows "processTraceData config t (''timeTo'' @ end' p) =
     (if truthy (resolveAppStart config t) then
        (case firstMatch (pairPatterns (end' p)) t of
           Some c \<Rightarrow>
             if truthy (parseFloat c)
             then Some (toFixed3 (js_sub (parseFloat c) (resolveAppStart config t))) else None
         | None \<Rightarrow> None)
      else None)"
proof -
  have k: "(''timeTo'' @ end' p, Some (end' p @ ''Timestamp'')) \<in> set (relOps config)"
    using p by (auto simp: relOps_def relPairOps_def)
  have src: "(end' p @ ''Timestamp'', None) \<in> set (relOps config)"
    using p by (auto simp: relOps_def relPairOps_def)
  have r: "(''timeTo'' @ end' p, None) \<in> set (rawOps config t)"
    using p by (auto simp: rawOps_def rawPairOps_def Let_def)
  have n: "(''timeTo'' @ end' p, toFixed3) \<in> set (normOps config)"
    using p by (auto simp: normOps_def normPairOps_def)
  show ?thesis
    using final_rel [OF d k src raw_key [OF d r] n] raw_pair_end [OF d p, of t]
    by (simp split: option.splits)
qed

lemma final_dur:
  assumes d: "distinct (metricKeys config)" and p: "p \<in> set (pairedMarkers config)"
  shows "processTraceData config t (name p @ ''Duration'') =
     (let s = matchTime (firstMatch (pairPatterns (start p)) t);
          e = matchTime (firstMatch (pairPatterns (end' p)) t)
      in if truthy s \<and> truthy e then Some (toFixed3 (js_sub e s)) else None)"
proof -
  let ?k = "name p @ ''Duration''"
  have r: "(?k, None) \<in> set (relOps config)"
    using p by (auto simp: relOps_def relPairOps_def)
  have n: "(?k, toFixed3) \<in> set (normOps config)"
    using p by (auto simp: normOps_def normPairOps_def)
  have raw: "(?k, (let s = matchTime (firstMatch (pairPatterns (start p)) t);
          e = matchTime (firstMatch (pairPatterns (end' p)) t)
      in if truthy s \<and> truthy e then Some (js_sub e s) else None)) \<in> set (rawOps config t)"
    using p by (auto simp: rawOps_def rawPairOps_def Let_def)
  show ?thesis
    using fold_updOp_key [OF distinct_parts(3) [OF d] n]
      rel_stage_unchanged [OF d r] raw_key [OF d raw]
    by (simp add: processTraceData_stages normalizeAll_ops if_truthy_toFixed3 Let_def)
qed

lemma truthy_opt_final_anchor:
  assumes "distinct (metricKeys config)"
  shows "truthy_opt (processTraceData config t ''appStartTimestamp'') =
     truthy (resolveAppStart config t)"
  by (simp add: final_anchor [OF assms] truthy_normalize)

lemma truthy_matchTime:
  "truthy_opt (map_option (\<lambda>c. normalizeTimestamp (parseFloat c)) mt) = truthy (matchTime mt)"
  by (cases mt) (simp_all add: matchTime_def truthy_normalize)

subsection \<open>Sorted lists\<close>

lemma sorted_nth_0_Min: "sorted xs \<Longrightarrow> xs \<noteq> [] \<Longrightarrow> xs ! 0 = Min (set xs)"
  by (cases xs) (auto intro!: Min_eqI [symmetric])

lemma sorted_last_Max: "sorted xs \<Longrightarrow> xs \<noteq> [] \<Longrightarrow> xs ! (length xs - 1) = Max (set xs)"
proof -
  assume s: "sorted xs" and ne: "xs \<noteq> []"
  have "xs ! (length xs - 1) = last xs" using ne by (simp add: last_conv_nth)
  moreover have "last xs = Max (set xs)"
  proof (rule Max_eqI [symmetric])
    show "finite (set xs)" by simp
    show "last xs \<in> set xs" using ne by simp
    fix y assume "y \<in> set xs"
    then obtain i where "i < length xs" "y = xs ! i" by (auto simp: in_set_conv_nth)
    then show "y \<le> last xs"
      using s ne by (simp add: last_conv_nth sorted_nth_mono)
  qed
  ultimately show ?thesis by simp
qed

lemma foldl_plus_sum_list: "foldl (+) (a::rat) xs = a + sum_list xs"
  by (induction xs arbitrary: a) (simp_all add: add.assoc)

lemma sum_list_sort: "sum_list (sort xs) = sum_list (xs::rat list)"
proof -
  have "mset (sort xs) = mset xs" by simp
  then show ?thesis by (metis sum_mset_sum_list)
qed

subsection \<open>The example inputs\<close>

lemma wf_exampleConfig: "wf_config exampleConfig"
  by code_simp

lemma wf_readmeConfig: "wf_config readmeConfig"
  by code_simp

lemma home_feed_loaded_listed: "''home_feed_loaded'' \<in> set (customMarkers exampleConfig)"
  by code_simp

lemma load_listed:
  "\<lparr>start = ''load_start'', end' = ''load_end'', name = ''load''\<rparr>
     \<in> set (pairedMarkers exampleConfig)"
  by code_simp














lemma manualAfterTap_marker:
  "firstMatch (markerPatterns ''feed_loaded'') traceManualAfterTap = Some ''2.0''"
  by code_simp

lemma manualAfterTap_start:
  "firstMatch (pairPatterns ''feed_tap_start'') traceManualAfterTap = Some ''1.0''"
  by code_simp

lemma manualAfterTap_end: "firstMatch (pairPatterns ''feed_loaded'') traceManualAfterTap = None"
  by code_simp

lemma dotsBeforeMarker_anchor: "resolveAppStart exampleConfig traceDotsBeforeMarker = Num (3 / 2)"
  by code_simp

lemma dotsBeforeMarker_marker:
  "firstMatch (markerPatterns ''home_feed_loaded'') traceDotsBeforeMarker = Some ''...''"
  by code_simp

section \<open>The claims\<close>

text \<open>
  Claim C1 (lifecycle milestones are found independently, each present exactly when the
  trace holds a matching line of the package). The four lifecycle patterns are regular
  expression literals, in which \<^verbatim>\<open>${config.appPackage}\<close> is not spliced but read as
  pattern text that asks for a brace after the end of the input. No text matches them,
  in the last script and in the first, so the lifecycle block leaves \<^verbatim>\<open>metrics\<close>
  unchanged and, for a configuration whose keys are distinct, none of the four lifecycle
  timestamps is ever present in the result.
\<close>

theorem lifecycle_never_found:
  "js_match (lifecyclePattern event) traceContent = None
   \<and> js_match (lifecyclePattern1 event) traceContent = None
   \<and> lifecycleEvents traceContent ms = ms
   \<and> (wf_config config \<longrightarrow>
        processTraceData config traceContent ''activityCreateTimestamp'' = None
      \<and> processTraceData config traceContent ''activityStartTimestamp'' = None
      \<and> processTraceData config traceContent ''activityResumeTimestamp'' = None
      \<and> processTraceData config traceContent ''activityDrawnTimestamp'' = None)"
  using final_lifecycle_none [of config _ traceContent]
  by (simp add: lifecyclePattern_dead lifecyclePattern1_dead lifecycleEvents_id
        wf_config_def absFixedKeys_def)

theorem lifecycle_never_found_witness:
  "wf_config exampleConfig
   \<and> processTraceData exampleConfig
        (''sh-1 (1) [0] .... 5.5: tracing_mark_write: B|1|performCreate com.example.app'')
        ''activityCreateTimestamp'' = None"
  using lifecycle_never_found [of "''performCreate''"
      "''sh-1 (1) [0] .... 5.5: tracing_mark_write: B|1|performCreate com.example.app''"
      Map.empty exampleConfig] wf_exampleConfig
  by simp

text \<open>
  Claim C2 (a relative offset is the normalized timestamp minus the normalized anchor,
  rounded to three decimals). The function derives the offsets before it normalizes
  the timestamps. For a trace stamped in microseconds, with the anchor at 2000000 and
  the marker at 3500000, the metric set holds the anchor 2 and the marker 3.5, both in
  seconds, and the offset 1500000 where the claim gives 1.5.
\<close>

theorem offset_derived_before_normalization:
  "processTraceData exampleConfig traceMicroseconds ''appStartTimestamp'' = Some (Num 2)
   \<and> processTraceData exampleConfig traceMicroseconds ''home_feed_loadedTimestamp''
        = Some (Num (7 / 2))
   \<and> processTraceData exampleConfig traceMicroseconds ''timeTohome_feed_loaded''
        = Some (Num 1500000)
   \<and> toFixed3 (js_sub (Num (7 / 2)) (Num 2)) = Num (3 / 2)"
proof -
  note d = wf_distinct [OF wf_exampleConfig]
  have a: "resolveAppStart exampleConfig traceMicroseconds = Num 2000000" by code_simp
  have f: "firstMatch (markerPatterns ''home_feed_loaded'') traceMicroseconds = Some ''3500000''"
    by code_simp
  have v1: "normalizeTimestamp (Num 2000000) = Num 2" by code_simp
  have v2: "normalizeTimestamp (parseFloat ''3500000'') = Num (7 / 2)" by code_simp
  have v3: "truthy (parseFloat ''3500000'')" by code_simp
  have v4: "toFixed3 (js_sub (parseFloat ''3500000'') (Num 2000000)) = Num 1500000" by code_simp
  have v5: "toFixed3 (js_sub (Num (7 / 2)) (Num 2)) = Num (3 / 2)" by code_simp
  have 1: "processTraceData exampleConfig traceMicroseconds ''appStartTimestamp'' = Some (Num 2)"
    by (simp only: final_anchor [OF d] a v1)
  have 2: "processTraceData exampleConfig traceMicroseconds (''home_feed_loaded'' @ ''Timestamp'')
        = Some (Num (7 / 2))"
    unfolding final_marker [OF d home_feed_loaded_listed] f by (simp add: v2)
  have 3: "processTraceData exampleConfig traceMicroseconds (''timeTo'' @ ''home_feed_loaded'')
        = Some (Num 1500000)"
    unfolding final_rel_marker [OF d home_feed_loaded_listed] f a
    by (simp add: v3 v4)
  from 1 2 3 v5 show ?thesis by simp
qed

text \<open>
  Claim C3 (anchor resolution: the first pattern of the list that matches determines
  \<^verbatim>\<open>appStartTimestamp\<close>, with two fallbacks when none matches). As stated it fails:
  the fallbacks are entered whenever the anchor found so far is falsy, hence also after
  a match whose timestamp is 0. Below, the \<^verbatim>\<open>Startup\<close> pattern matches the second line
  with the timestamp 0.0, and the anchor is taken from the first line, which mentions
  the package.
\<close>

theorem anchor_not_from_first_match_counterexample:
  "js_match (appStartPatterns (appPackage exampleConfig) ! 0) traceMentionThenZeroStartup
     = Some ''0.0''
   \<and> parseFloat ''0.0'' = Num 0
   \<and> resolveAppStart exampleConfig traceMentionThenZeroStartup = Num 7"
  by code_simp

text \<open>
  Claim C3, amended. The patterns are tried in the order of the list (the
  \<^verbatim>\<open>Startup\<close> marker, \<^verbatim>\<open>APPLICATION_START\<close>, then the activity manager events of
  the package), and the first one that matches determines \<^verbatim>\<open>appStartTimestamp\<close>
  wherever the later ones would match, provided its timestamp is a number other than
  0. When no pattern matches, or the first match has the timestamp 0 or none, the
  anchor is the timestamp of the first line that mentions the package if that is a
  number other than 0, and else the timestamp of the first line with a timestamp
  column; when there is no such line the anchor is 0 or no number. The last seven
  patterns of the list match no text.
\<close>

theorem anchor_resolution:
  assumes "plain_name (appPackage config)"
  shows "let ps = appStartPatterns (appPackage config);
       found = matchTime (firstMatch ps traceContent);
       mention = matchTime (js_match (appFirstMentionPattern (appPackage config)) traceContent)
   in (\<forall>i c. i < length ps \<and> (\<forall>j < i. js_match (ps ! j) traceContent = None)
          \<and> js_match (ps ! i) traceContent = Some c \<and> truthy (parseFloat c) \<longrightarrow>
        resolveAppStart config traceContent = parseFloat c)
    \<and> ((\<forall>p \<in> set ps. js_match p traceContent = None) \<longrightarrow> found = Num 0)
    \<and> (\<not> truthy found \<and> truthy mention \<longrightarrow> resolveAppStart config traceContent = mention)
    \<and> (\<not> truthy found \<and> \<not> truthy mention \<longrightarrow>
         (\<forall>c. js_match firstTimestampPattern traceContent = Some c \<longrightarrow>
            resolveAppStart config traceContent = parseFloat c))
    \<and> (\<not> truthy found \<and> \<not> truthy mention
         \<and> js_match firstTimestampPattern traceContent = None \<longrightarrow>
         \<not> truthy (resolveAppStart config traceContent))
    \<and> ((\<forall>p \<in> set ps. js_match p traceContent = None)
         \<and> js_match (appFirstMentionPattern (appPackage config)) traceContent = None
         \<and> js_match firstTimestampPattern traceContent = None \<longrightarrow>
         resolveAppStart config traceContent = Num 0)
    \<and> (\<forall>p \<in> set (drop 8 ps). js_match p traceContent = None)"
proof -
  let ?ps = "appStartPatterns (appPackage config)"
  have first: "resolveAppStart config traceContent = parseFloat c"
    if "i < length ?ps \<and> (\<forall>j < i. js_match (?ps ! j) traceContent = None)
        \<and> js_match (?ps ! i) traceContent = Some c \<and> truthy (parseFloat c)" for i c
  proof -
    have "firstMatch ?ps traceContent = Some c"
      using that firstMatch_first [of i ?ps traceContent c] by blast
    then show ?thesis using that by (simp add: resolveAppStart_def Let_def)
  qed
  have none: "matchTime (firstMatch ?ps traceContent) = Num 0"
    if "\<forall>p \<in> set ?ps. js_match p traceContent = None"
    using firstMatch_none [OF that] by (simp add: matchTime_def)
  show ?thesis
    unfolding Let_def
  proof (intro conjI allI impI)
    fix i c
    assume "i < length ?ps \<and> (\<forall>j < i. js_match (?ps ! j) traceContent = None)
        \<and> js_match (?ps ! i) traceContent = Some c \<and> truthy (parseFloat c)"
    then show "resolveAppStart config traceContent = parseFloat c" by (rule first)
  next
    assume "\<forall>p \<in> set ?ps. js_match p traceContent = None"
    then show "matchTime (firstMatch ?ps traceContent) = Num 0" by (rule none)
  next
    assume "\<not> truthy (matchTime (firstMatch ?ps traceContent))
        \<and> truthy (matchTime (js_match (appFirstMentionPattern (appPackage config)) traceContent))"
    then show "resolveAppStart config traceContent
        = matchTime (js_match (appFirstMentionPattern (appPackage config)) traceContent)"
      by (auto simp: resolveAppStart_def Let_def matchTime_def split: option.splits)
  next
    fix c
    assume "\<not> truthy (matchTime (firstMatch ?ps traceContent))
        \<and> \<not> truthy (matchTime (js_match (appFirstMentionPattern (appPackage config)) traceContent))"
      and "js_match firstTimestampPattern traceContent = Some c"
    then show "resolveAppStart config traceContent = parseFloat c"
      by (auto simp: resolveAppStart_def Let_def matchTime_def split: option.splits)
  next
    assume "\<not> truthy (matchTime (firstMatch ?ps traceContent))
        \<and> \<not> truthy (matchTime (js_match (appFirstMentionPattern (appPackage config)) traceContent))
        \<and> js_match firstTimestampPattern traceContent = None"
    then show "\<not> truthy (resolveAppStart config traceContent)"
      by (auto simp: resolveAppStart_def Let_def matchTime_def split: option.splits)
  next
    assume "(\<forall>p \<in> set ?ps. js_match p traceContent = None)
        \<and> js_match (appFirstMentionPattern (appPackage config)) traceContent = None
        \<and> js_match firstTimestampPattern traceContent = None"
    then show "resolveAppStart config traceContent = Num 0"
      using firstMatch_none [of ?ps traceContent]
      by (simp add: resolveAppStart_def Let_def)
  next
    show "\<forall>p \<in> set (drop 8 ?ps). js_match p traceContent = None"
      by (rule appStart_dead_tail)
  qed
qed

theorem anchor_resolution_witness:
  "plain_name (appPackage exampleConfig)
   \<and> (0 :: nat) < length (appStartPatterns (appPackage exampleConfig))
   \<and> js_match (appStartPatterns (appPackage exampleConfig) ! 0) traceStartupSecond = Some ''2''
   \<and> js_match (appStartPatterns (appPackage exampleConfig) ! 1) traceStartupSecond = Some ''1''
   \<and> truthy (parseFloat ''2'')
   \<and> resolveAppStart exampleConfig traceStartupSecond = Num 2
   \<and> resolveAppStart exampleConfig [] = Num 0"
proof -
  let ?ps = "appStartPatterns (appPackage exampleConfig)"
  have l: "(0 :: nat) < length ?ps" by code_simp
  have s: "js_match (?ps ! 0) traceStartupSecond = Some ''2''" by code_simp
  have a: "js_match (?ps ! 1) traceStartupSecond = Some ''1''" by code_simp
  have t: "truthy (parseFloat ''2'')" by code_simp
  have v: "parseFloat ''2'' = Num 2" by code_simp
  have side: "0 < length ?ps \<and> (\<forall>j < 0. js_match (?ps ! j) traceStartupSecond = None)
      \<and> js_match (?ps ! 0) traceStartupSecond = Some ''2'' \<and> truthy (parseFloat ''2'')"
    using l s t by simp
  have pn: "plain_name (appPackage exampleConfig)" by code_simp
  note w = anchor_resolution [OF pn, unfolded Let_def]
  note w1 = w [of traceStartupSecond, THEN conjunct1, rule_format, OF side]
  have e1: "\<forall>p \<in> set ?ps. js_match p [] = None" by code_simp
  have e2: "js_match (appFirstMentionPattern (appPackage exampleConfig)) [] = None" by code_simp
  have e3: "js_match firstTimestampPattern [] = None" by code_simp
  note w2 = w [of "[]", THEN conjunct2, THEN conjunct2, THEN conjunct2, THEN conjunct2,
      THEN conjunct2, THEN conjunct1, rule_format, OF conjI [OF e1 conjI [OF e2 e3]]]
  from w1 v have 1: "resolveAppStart exampleConfig traceStartupSecond = Num 2" by simp
  show ?thesis by (intro conjI pn l s a t 1 w2)
qed

text \<open>
  Claim C4 (summary aggregation lists every metric, with a "No data available" entry for
  a metric that no run produced). In the first script the summary written to the file
  never holds such a line: \<^verbatim>\<open>generateSummaryReport\<close> calls
  \<^verbatim>\<open>addAverageToSummary\<close> as a statement and drops the text it returns, so the
  report consists of the section headings only, whatever \<^verbatim>\<open>allMetrics\<close> holds. The
  second and third parts show the line the function builds for a metric with one value
  and for a metric without data.
\<close>

theorem summary_drops_metric_lines:
  "summaryContent config allMetrics content0 =
     content0 @ ''App startup performance (averaged over successful runs):'' @ newline
       @ newline @ ''Custom marker timings (averaged over successful runs):'' @ newline
       @ newline @ ''Marker-to-marker timings (averaged over successful runs):'' @ newline
       @ newline @ ''Frame rendering performance (averaged over successful runs):'' @ newline
   \<and> addAverageToSummary content0 (Map.empty(''timeToCreate'' \<mapsto> [3 / 2])) ''timeToCreate''
         ''Time from intent to performCreate'' ''s'' =
       content0 @ ''- Time from intent to performCreate: 1.500s (averaged over 1 runs)'' @ newline
   \<and> addAverageToSummary content0 Map.empty ''timeToCreate''
         ''Time from intent to performCreate'' ''s'' =
       content0 @ ''- Time from intent to performCreate: No data available'' @ newline"
proof (intro conjI)
  show "summaryContent config allMetrics content0 =
     content0 @ ''App startup performance (averaged over successful runs):'' @ newline
       @ newline @ ''Custom marker timings (averaged over successful runs):'' @ newline
       @ newline @ ''Marker-to-marker timings (averaged over successful runs):'' @ newline
       @ newline @ ''Frame rendering performance (averaged over successful runs):'' @ newline"
    unfolding summaryContent_def Let_def
    by (simp add: fold_keep split_def)
  show "addAverageToSummary content0 (Map.empty(''timeToCreate'' \<mapsto> [3 / 2])) ''timeToCreate''
         ''Time from intent to performCreate'' ''s'' =
       content0 @ ''- Time from intent to performCreate: 1.500s (averaged over 1 runs)'' @ newline"
    by code_simp
  show "addAverageToSummary content0 Map.empty ''timeToCreate''
         ''Time from intent to performCreate'' ''s'' =
       content0 @ ''- Time from intent to performCreate: No data available'' @ newline"
    by code_simp
qed







text \<open>
  Claim C7 (a derived key is present exactly when both of its operands are present and
  non-zero). As stated it fails in two ways. A timestamp key may be shared: when
  \<^verbatim>\<open>feed_loaded\<close> is a custom marker and also the end of the paired marker
  \<^verbatim>\<open>feed_navigation\<close>, and the trace holds \<^verbatim>\<open>feed_tap_start\<close> at 1 and only a
  \<^verbatim>\<open>TEST_EVENT_MANUAL\<close> line at 2, the custom marker fills \<^verbatim>\<open>feed_loadedTimestamp\<close>
  with 2 while the end marker is not found: both operands are present and non-zero and
  there is no \<^verbatim>\<open>feed_navigationDuration\<close>. And a timestamp may be no number: on the
  line \<^verbatim>\<open><...>-12 home_feed_loaded\<close> the last marker pattern captures the three dots,
  \<^verbatim>\<open>home_feed_loadedTimestamp\<close> is stored as \<open>NaN\<close>, and with the anchor at 1.5 there is
  no \<^verbatim>\<open>timeTohome_feed_loaded\<close>.
\<close>

theorem derived_key_absent_counterexample:
  "(processTraceData sharedEndConfig traceManualAfterTap ''feed_tap_startTimestamp''
         = Some (Num 1)
    \<and> processTraceData sharedEndConfig traceManualAfterTap ''feed_loadedTimestamp''
         = Some (Num 2)
    \<and> processTraceData sharedEndConfig traceManualAfterTap ''feed_navigationDuration'' = None)
   \<and> (processTraceData exampleConfig traceDotsBeforeMarker ''appStartTimestamp''
         = Some (Num (3 / 2))
    \<and> processTraceData exampleConfig traceDotsBeforeMarker ''home_feed_loadedTimestamp''
         = Some NaN
    \<and> NaN \<noteq> Num 0
    \<and> processTraceData exampleConfig traceDotsBeforeMarker ''timeTohome_feed_loaded'' = None)"
proof -
  have cm: "customMarkers sharedEndConfig = [''feed_loaded'']"
    and pm: "pairedMarkers sharedEndConfig =
      [\<lparr>start = ''feed_tap_start'', end' = ''feed_loaded'', name = ''feed_navigation''\<rparr>]"
    by (simp_all add: sharedEndConfig_def)
  have p: "parseFloat ''1.0'' = Num 1" "parseFloat ''2.0'' = Num 2" by code_simp+
  note facts = manualAfterTap_marker manualAfterTap_start manualAfterTap_end p
  have raw: "extractRaw sharedEndConfig traceManualAfterTap ''feed_tap_startTimestamp''
        = Some (Num 1)"
    "extractRaw sharedEndConfig traceManualAfterTap ''feed_loadedTimestamp'' = Some (Num 2)"
    "extractRaw sharedEndConfig traceManualAfterTap ''feed_navigationDuration'' = None"
    by (simp_all add: extractRaw_def lifecycleEvents_id cm pm markerStep_def pairStep_def
          setIfMatch_def matchTime_def Let_def facts)
  have rel: "relativeOffsets sharedEndConfig a M ''feed_tap_startTimestamp''
        = M ''feed_tap_startTimestamp''"
    "relativeOffsets sharedEndConfig a M ''feed_loadedTimestamp'' = M ''feed_loadedTimestamp''"
    "relativeOffsets sharedEndConfig a M ''feed_navigationDuration''
        = M ''feed_navigationDuration''" for a M
    by (cases "truthy a";
        simp add: relativeOffsets_def relMarkerStep_def relPairStep_def setRel_apply Let_def
          cm pm)+
  have 1: "processTraceData sharedEndConfig traceManualAfterTap ''feed_tap_startTimestamp''
        = Some (Num 1)"
    by (simp add: processTraceData_stages normalizeAll_def normMarkerStep_def normPairStep_def
          updIfTruthy_apply Let_def cm pm rel raw)
  have 2: "processTraceData sharedEndConfig traceManualAfterTap ''feed_loadedTimestamp''
        = Some (Num 2)"
    by (simp add: processTraceData_stages normalizeAll_def normMarkerStep_def normPairStep_def
          updIfTruthy_apply Let_def cm pm rel raw)
  have 3: "processTraceData sharedEndConfig traceManualAfterTap ''feed_navigationDuration'' = None"
    by (simp add: processTraceData_stages normalizeAll_def normMarkerStep_def normPairStep_def
          updIfTruthy_apply Let_def cm pm rel raw)
  note d = wf_distinct [OF wf_exampleConfig]
  have n: "parseFloat ''...'' = NaN" by code_simp
  have 4: "processTraceData exampleConfig traceDotsBeforeMarker ''appStartTimestamp''
        = Some (Num (3 / 2))"
    by (simp add: final_anchor [OF d] dotsBeforeMarker_anchor)
  have 5: "processTraceData exampleConfig traceDotsBeforeMarker (''home_feed_loaded'' @ ''Timestamp'')
        = Some NaN"
    unfolding final_marker [OF d home_feed_loaded_listed] dotsBeforeMarker_marker
    by (simp add: n)
  have 6: "processTraceData exampleConfig traceDotsBeforeMarker (''timeTo'' @ ''home_feed_loaded'')
        = None"
    unfolding final_rel_marker [OF d home_feed_loaded_listed] dotsBeforeMarker_marker
    by (simp add: n)
  have 7: "NaN \<noteq> Num 0" by simp
  from 5 have ts: "processTraceData exampleConfig traceDotsBeforeMarker ''home_feed_loadedTimestamp''
        = Some NaN" by simp
  from 6 have off: "processTraceData exampleConfig traceDotsBeforeMarker ''timeTohome_feed_loaded''
        = None" by simp
  show ?thesis by (intro conjI 1 2 3 4 ts 7 off)
qed

text \<open>
  Claim C7, amended. For a configuration whose keys are distinct, in the metric set
  returned for any trace: a \<^verbatim>\<open>timeTo\<close> key of a custom marker, of a paired marker's start or
  end, or of a lifecycle milestone is present exactly when \<^verbatim>\<open>appStartTimestamp\<close> and
  the timestamp of that marker or milestone are both present with a value that is a
  number other than 0; a \<^verbatim>\<open>Duration\<close> key is present exactly when the start and the
  end timestamp are; without an anchor no \<^verbatim>\<open>timeTo\<close> key of the configuration is
  present; a timestamp that is 0 or no number counts as not found.
\<close>

theorem derived_keys_present_iff:
  assumes "distinct (metricKeys config)"
  shows "let ms = processTraceData config traceContent in
     (\<forall>m \<in> set (customMarkers config).
        (ms (''timeTo'' @ m) \<noteq> None) =
          (truthy_opt (ms ''appStartTimestamp'') \<and> truthy_opt (ms (m @ ''Timestamp''))))
   \<and> (\<forall>p \<in> set (pairedMarkers config).
        ((ms (''timeTo'' @ start p) \<noteq> None) =
          (truthy_opt (ms ''appStartTimestamp'') \<and> truthy_opt (ms (start p @ ''Timestamp''))))
      \<and> ((ms (''timeTo'' @ end' p) \<noteq> None) =
          (truthy_opt (ms ''appStartTimestamp'') \<and> truthy_opt (ms (end' p @ ''Timestamp''))))
      \<and> ((ms (name p @ ''Duration'') \<noteq> None) =
          (truthy_opt (ms (start p @ ''Timestamp'')) \<and> truthy_opt (ms (end' p @ ''Timestamp'')))))
   \<and> (\<forall>(k, src) \<in> set lifecycleRel.
        (ms k \<noteq> None) = (truthy_opt (ms ''appStartTimestamp'') \<and> truthy_opt (ms src)))
   \<and> (\<not> truthy_opt (ms ''appStartTimestamp'') \<longrightarrow> (\<forall>k \<in> set (relKeys config). ms k = None))
   \<and> \<not> truthy_opt (Some (Num 0)) \<and> \<not> truthy_opt (Some NaN) \<and> \<not> truthy_opt None"
proof -
  note d = assms
  note A = truthy_opt_final_anchor [OF d, of traceContent]
  have M: "(processTraceData config traceContent (''timeTo'' @ m) \<noteq> None) =
      (truthy_opt (processTraceData config traceContent ''appStartTimestamp'')
       \<and> truthy_opt (processTraceData config traceContent (m @ ''Timestamp'')))"
    if "m \<in> set (customMarkers config)" for m
    unfolding A final_marker [OF d that] final_rel_marker [OF d that] truthy_matchTime
    by (simp add: matchTime_def split: option.splits)
  have S: "(processTraceData config traceContent (''timeTo'' @ start p) \<noteq> None) =
      (truthy_opt (processTraceData config traceContent ''appStartTimestamp'')
       \<and> truthy_opt (processTraceData config traceContent (start p @ ''Timestamp'')))"
    if "p \<in> set (pairedMarkers config)" for p
    unfolding A final_pair_start [OF d that] final_rel_start [OF d that] truthy_matchTime
    by (simp add: matchTime_def split: option.splits)
  have E: "(processTraceData config traceContent (''timeTo'' @ end' p) \<noteq> None) =
      (truthy_opt (processTraceData config traceContent ''appStartTimestamp'')
       \<and> truthy_opt (processTraceData config traceContent (end' p @ ''Timestamp'')))"
    if "p \<in> set (pairedMarkers config)" for p
    unfolding A final_pair_end [OF d that] final_rel_end [OF d that] truthy_matchTime
    by (simp add: matchTime_def split: option.splits)
  have D: "(processTraceData config traceContent (name p @ ''Duration'') \<noteq> None) =
      (truthy_opt (processTraceData config traceContent (start p @ ''Timestamp''))
       \<and> truthy_opt (processTraceData config traceContent (end' p @ ''Timestamp'')))"
    if "p \<in> set (pairedMarkers config)" for p
    unfolding final_pair_start [OF d that] final_pair_end [OF d that] final_dur [OF d that]
      truthy_matchTime
    by (simp add: Let_def)
  have L: "(processTraceData config traceContent k \<noteq> None) =
      (truthy_opt (processTraceData config traceContent ''appStartTimestamp'')
       \<and> truthy_opt (processTraceData config traceContent src))"
    if "(k, src) \<in> set lifecycleRel" for k src
  proof -
    have "k \<in> set relFixedKeys" using that by (force simp: lifecycleRel_fst [symmetric])
    moreover have "src \<in> set (tl absFixedKeys)"
      using that by (force simp: lifecycleRel_snd [symmetric])
    ultimately show ?thesis
      by (simp add: final_rel_fixed [OF d] final_lifecycle_none [OF d])
  qed
  have N: "processTraceData config traceContent k = None"
    if na: "\<not> truthy_opt (processTraceData config traceContent ''appStartTimestamp'')"
      and k: "k \<in> set (relKeys config)" for k
  proof -
    have a: "\<not> truthy (resolveAppStart config traceContent)" using na A by simp
    from k consider "k \<in> set relFixedKeys"
      | m where "m \<in> set (customMarkers config)" "k = ''timeTo'' @ m"
      | p where "p \<in> set (pairedMarkers config)" "k = ''timeTo'' @ start p"
      | p where "p \<in> set (pairedMarkers config)" "k = ''timeTo'' @ end' p"
      by (auto simp: relKeys_def)
    then show ?thesis
    proof cases
      case 1 then show ?thesis by (rule final_rel_fixed [OF d])
    next
      case 2 then show ?thesis using a unfolding 2(2) final_rel_marker [OF d 2(1)] by simp
    next
      case 3 then show ?thesis using a unfolding 3(2) final_rel_start [OF d 3(1)] by simp
    next
      case 4 then show ?thesis using a unfolding 4(2) final_rel_end [OF d 4(1)] by simp
    qed
  qed
  have L': "\<forall>(k, src) \<in> set lifecycleRel.
      (processTraceData config traceContent k \<noteq> None) =
        (truthy_opt (processTraceData config traceContent ''appStartTimestamp'')
         \<and> truthy_opt (processTraceData config traceContent src))"
    using L by blast
  have Z: "\<not> truthy_opt (Some (Num 0))" "\<not> truthy_opt (Some NaN)" "\<not> truthy_opt None"
    by simp_all
  show ?thesis
    unfolding Let_def
    by (intro conjI ballI impI M S E D L' N Z)
qed

theorem derived_keys_present_iff_witness:
  "distinct (metricKeys exampleConfig)
   \<and> ''home_feed_loaded'' \<in> set (customMarkers exampleConfig)
   \<and> (processTraceData exampleConfig traceStartupThenMarker ''timeTohome_feed_loaded'' \<noteq> None) =
       (truthy_opt (processTraceData exampleConfig traceStartupThenMarker ''appStartTimestamp'')
        \<and> truthy_opt (processTraceData exampleConfig traceStartupThenMarker
              ''home_feed_loadedTimestamp''))
   \<and> \<lparr>start = ''load_start'', end' = ''load_end'', name = ''load''\<rparr>
        \<in> set (pairedMarkers exampleConfig)
   \<and> (processTraceData exampleConfig tracePair ''loadDuration'' \<noteq> None) =
       (truthy_opt (processTraceData exampleConfig tracePair ''load_startTimestamp'')
        \<and> truthy_opt (processTraceData exampleConfig tracePair ''load_endTimestamp''))
   \<and> \<not> truthy_opt (processTraceData exampleConfig [] ''appStartTimestamp'')
   \<and> ''timeTohome_feed_loaded'' \<in> set (relKeys exampleConfig)
   \<and> processTraceData exampleConfig [] ''timeTohome_feed_loaded'' = None"
proof -
  have m: "''home_feed_loaded'' \<in> set (customMarkers exampleConfig)" by code_simp
  have k: "''timeTohome_feed_loaded'' \<in> set (relKeys exampleConfig)" by code_simp
  have a0: "resolveAppStart exampleConfig [] = Num 0" by code_simp
  have na: "\<not> truthy_opt (processTraceData exampleConfig [] ''appStartTimestamp'')"
    by (simp add: truthy_opt_final_anchor [OF wf_distinct [OF wf_exampleConfig]] a0)
  note d = wf_distinct [OF wf_exampleConfig]
  note w = derived_keys_present_iff [OF d, unfolded Let_def]
  have 1: "(processTraceData exampleConfig traceStartupThenMarker ''timeTohome_feed_loaded'' \<noteq> None) =
       (truthy_opt (processTraceData exampleConfig traceStartupThenMarker ''appStartTimestamp'')
        \<and> truthy_opt (processTraceData exampleConfig traceStartupThenMarker
              ''home_feed_loadedTimestamp''))"
    using w [of traceStartupThenMarker, THEN conjunct1, rule_format, OF m] by simp
  note 2 = w [of "[]", THEN conjunct2, THEN conjunct2, THEN conjunct2, THEN conjunct1,
      rule_format, OF na k]
  have 3: "(processTraceData exampleConfig tracePair ''loadDuration'' \<noteq> None) =
       (truthy_opt (processTraceData exampleConfig tracePair ''load_startTimestamp'')
        \<and> truthy_opt (processTraceData exampleConfig tracePair ''load_endTimestamp''))"
    using w [of tracePair, THEN conjunct2, THEN conjunct1, rule_format, OF load_listed,
        THEN conjunct2, THEN conjunct2]
    by simp
  show ?thesis
    by (intro conjI d m 1 load_listed 3 na k 2)
qed



text \<open>
  Claim C9 (summary statistics). For a non-empty list of values, \<^verbatim>\<open>calculateStats\<close>
  returns the least value, the greatest value, the arithmetic mean and the median of
  the values in ascending order: for every sorted arrangement \<open>s\<close> of the values, the
  mean of the two middle entries when the length is even and the middle entry
  otherwise. The median of 1, 2, 3 is 2 and the median of 1, 2, 3, 4 is 2.5.
\<close>

theorem calculateStats_correct:
  assumes "values \<noteq> []"
  shows "min' (calculateStats values) = Min (set values)
    \<and> max' (calculateStats values) = Max (set values)
    \<and> avg (calculateStats values) = sum_list values / of_nat (length values)
    \<and> (\<forall>s. sorted s \<and> mset s = mset values \<longrightarrow>
          median (calculateStats values) =
            (if even (length values)
             then (s ! (length values div 2 - 1) + s ! (length values div 2)) / 2
             else s ! (length values div 2)))
    \<and> median (calculateStats [1, 2, 3]) = 2
    \<and> median (calculateStats [1, 2, 3, 4]) = 5 / 2"
proof -
  have ne: "sort values \<noteq> []" using assms by (metis length_sort length_0_conv)
  have sset: "set (sort values) = set values" by simp
  have uniq: "s = sort values" if "sorted s" "mset s = mset values" for s
    using that by (metis properties_for_sort)
  have m1: "median (calculateStats [1, 2, 3]) = 2"
    by (simp add: calculateStats_def Let_def)
  have m2: "median (calculateStats [1, 2, 3, 4]) = 5 / 2"
    by (simp add: calculateStats_def Let_def)
  show ?thesis
    using assms sorted_nth_0_Min [OF sorted_sort ne] sorted_last_Max [OF sorted_sort ne]
      uniq m1 m2
    by (auto simp: calculateStats_def Let_def sset foldl_plus_sum_list sum_list_sort
          even_iff_mod_2_eq_zero)
qed

theorem calculateStats_correct_witness:
  "[4, 1, 3, 2] \<noteq> ([] :: rat list)
   \<and> min' (calculateStats [4, 1, 3, 2]) = 1 \<and> max' (calculateStats [4, 1, 3, 2]) = 4
   \<and> avg (calculateStats [4, 1, 3, 2]) = 5 / 2
   \<and> median (calculateStats [4, 1, 3, 2]) = 5 / 2"
proof -
  have ne: "[4, 1, 3, 2] \<noteq> ([] :: rat list)" by simp
  have s: "sorted [1, 2, 3, 4 :: rat] \<and> mset [1, 2, 3, 4 :: rat] = mset [4, 1, 3, 2]"
    by (simp add: add.commute add.left_commute)
  have l: "length [4, 1, 3, 2 :: rat] = 4" by simp
  note c = calculateStats_correct [OF ne]
  from c have "\<forall>s. sorted s \<and> mset s = mset [4, 1, 3, 2] \<longrightarrow>
      median (calculateStats [4, 1, 3, 2]) =
        (if even (length [4, 1, 3, 2 :: rat])
         then (s ! (length [4, 1, 3, 2 :: rat] div 2 - 1) + s ! (length [4, 1, 3, 2 :: rat] div 2)) / 2
         else s ! (length [4, 1, 3, 2 :: rat] div 2))"
    by blast
  with s have "median (calculateStats [4, 1, 3, 2]) =
        (if even (length [4, 1, 3, 2 :: rat])
         then ([1, 2, 3, 4] ! (length [4, 1, 3, 2 :: rat] div 2 - 1)
               + [1, 2, 3, 4] ! (length [4, 1, 3, 2 :: rat] div 2)) / 2
         else [1, 2, 3, 4] ! (length [4, 1, 3, 2 :: rat] div 2))"
    by blast
  then have med: "median (calculateStats [4, 1, 3, 2]) = 5 / 2"
    unfolding l by simp
  from c have "min' (calculateStats [4, 1, 3, 2]) = Min (set [4, 1, 3, 2])"
    and "max' (calculateStats [4, 1, 3, 2]) = Max (set [4, 1, 3, 2])"
    and "avg (calculateStats [4, 1, 3, 2]) = sum_list [4, 1, 3, 2] / of_nat (length [4, 1, 3, 2 :: rat])"
    by blast+
  then show ?thesis using ne med by simp
qed

text \<open>
  Claim C10 (the marker patterns include two that do not mention the marker). In the
  pattern list of every marker, the eighth and ninth entries (the sixth and seventh in
  the second script) are the fixed patterns for \<^verbatim>\<open>TEST_EVENT_MANUAL\<close> and
  \<^verbatim>\<open>test_event_manual\<close>. When the marker, read as a pattern, occurs nowhere in the
  trace and a line matches the first of them, the marker's timestamp is recorded from
  that line: the number captured there, normalized.
\<close>

theorem manual_event_recorded_for_any_marker:
  assumes "wf_config config"
    and "marker \<in> set (customMarkers config)"
    and "js_match (interp marker) traceContent = None"
    and "js_match (num @ [Star Dot] @ lit ''TEST_EVENT_MANUAL'') traceContent = Some c"
  shows "markerPatterns marker ! 7 = num @ [Star Dot] @ lit ''TEST_EVENT_MANUAL''
    \<and> markerPatterns marker ! 8 = num @ [Star Dot] @ lit ''test_event_manual''
    \<and> markerPatterns2 marker ! 5 = num @ [Star Dot] @ lit ''TEST_EVENT_MANUAL''
    \<and> markerPatterns2 marker ! 6 = num @ [Star Dot] @ lit ''test_event_manual''
    \<and> processTraceData config traceContent (marker @ ''Timestamp'') =
          Some (normalizeTimestamp (parseFloat c))
    \<and> markerStep2 traceContent marker ms (marker @ ''Timestamp'') = Some (parseFloat c)"
proof -
  have d: "distinct (metricKeys config)" using assms(1) by (rule wf_distinct)
  have "firstMatch (markerPatterns marker) traceContent = Some c"
    using marker_only_manual [OF assms(3)] assms(4) by simp
  then have p: "processTraceData config traceContent (marker @ ''Timestamp'') =
          Some (normalizeTimestamp (parseFloat c))"
    using final_marker [OF d assms(2), of traceContent] by simp
  have "firstMatch (markerPatterns2 marker) traceContent = Some c"
    using marker2_only_manual [OF assms(3)] assms(4) by simp
  then have q: "markerStep2 traceContent marker ms (marker @ ''Timestamp'') = Some (parseFloat c)"
    by (simp add: markerStep2_def setIfMatch_def)
  show ?thesis using p q by (simp add: markerPatterns_def markerPatterns2_def)
qed

theorem manual_event_recorded_for_any_marker_witness:
  "wf_config exampleConfig
   \<and> ''home_feed_loaded'' \<in> set (customMarkers exampleConfig)
   \<and> js_match (interp ''home_feed_loaded'') ''12.5: TEST_EVENT_MANUAL'' = None
   \<and> js_match (num @ [Star Dot] @ lit ''TEST_EVENT_MANUAL'') ''12.5: TEST_EVENT_MANUAL''
        = Some ''12.5''
   \<and> processTraceData exampleConfig ''12.5: TEST_EVENT_MANUAL'' ''home_feed_loadedTimestamp''
        = Some (Num (25 / 2))"
proof -
  have m: "''home_feed_loaded'' \<in> set (customMarkers exampleConfig)" by code_simp
  have absent: "js_match (interp ''home_feed_loaded'') ''12.5: TEST_EVENT_MANUAL'' = None"
    by code_simp
  have manual: "js_match (num @ [Star Dot] @ lit ''TEST_EVENT_MANUAL'') ''12.5: TEST_EVENT_MANUAL''
        = Some ''12.5''"
    by code_simp
  have v: "normalizeTimestamp (parseFloat ''12.5'') = Num (25 / 2)" by code_simp
  from manual_event_recorded_for_any_marker [OF wf_exampleConfig m absent manual, of Map.empty]
  have "processTraceData exampleConfig ''12.5: TEST_EVENT_MANUAL''
        (''home_feed_loaded'' @ ''Timestamp'') = Some (normalizeTimestamp (parseFloat ''12.5''))"
    by blast
  then have "processTraceData exampleConfig ''12.5: TEST_EVENT_MANUAL'' ''home_feed_loadedTimestamp''
        = Some (Num (25 / 2))"
    using v by simp
  then show ?thesis using wf_exampleConfig m absent manual by blast
qed

end
